theory Spec2Isabelle
  imports
    Main
    "HOL-Library.Char_ord"
    "HOL-Library.List_Lexorder"
    "HOL-Library.Product_Lexorder"
    "HOL-Library.Sublist"
    "HOL-Library.AList"
    "HOL-Library.Multiset"
begin

section \<open>Strings as Python handles them\<close>

text \<open>
  A Python \<open>str\<close> is modelled as a \<open>string\<close> (a list of 8-bit characters). Hostnames and
  the timestamps of crt.sh are ASCII, and the model is exact on ASCII text: \<open>lower\<close> folds
  \<open>A\<close>..\<open>Z\<close> only and \<open>strip\<close> removes the ASCII characters for which \<open>str.isspace\<close>
  holds. The order on strings is the lexicographic order on character codes
  (\<open>Char_ord\<close>, \<open>List_Lexorder\<close>), which is the order of Python's \<open><\<close> on \<open>str\<close>.
\<close>

definition isspace :: "char \<Rightarrow> bool" where
  "isspace c = (c \<in> set [CHR 0x09, CHR 0x0A, CHR 0x0B, CHR 0x0C, CHR 0x0D,
                          CHR 0x1C, CHR 0x1D, CHR 0x1E, CHR 0x1F, CHR 0x20])"

definition strip :: "string \<Rightarrow> string" where
  "strip s = rev (dropWhile isspace (rev (dropWhile isspace s)))"

definition lower_char :: "char \<Rightarrow> char" where
  "lower_char c = (if CHR ''A'' \<le> c \<and> c \<le> CHR ''Z'' then char_of (of_char c + (32::nat)) else c)"

definition lower :: "string \<Rightarrow> string" where
  "lower s = map lower_char s"

text \<open>\<open>s.split(sep)\<close> for a one-character separator: never the empty list.\<close>

fun split :: "char \<Rightarrow> string \<Rightarrow> string list" where
  "split sep [] = [[]]"
| "split sep (c # cs) =
     (if c = sep then [] # split sep cs
      else (case split sep cs of
              [] \<Rightarrow> [[c]]
            | w # ws \<Rightarrow> (c # w) # ws))"

text \<open>
  \<open>s.replace(old, new)\<close>: the occurrences of \<open>old\<close> are found from the left and do not
  overlap; an empty \<open>old\<close> matches between any two characters and at both ends.
\<close>

function replace :: "string \<Rightarrow> string \<Rightarrow> string \<Rightarrow> string" where
  "replace old new [] = (if old = [] then new else [])"
| "replace old new (c # cs) =
     (if old = [] then new @ c # replace old new cs
      else if prefix old (c # cs) then new @ replace old new (drop (length old) (c # cs))
      else c # replace old new cs)"
  by pat_completeness auto
termination
  by (relation "measure (\<lambda>(old, new, s). length s)") (auto simp: neq_Nil_conv)

text \<open>\<open>x in s\<close> on strings is the contiguous-substring test, \<open>s.endswith(x)\<close> the suffix test.\<close>

abbreviation contains :: "string \<Rightarrow> string \<Rightarrow> bool" where
  "contains s x \<equiv> sublist x s"

abbreviation endswith :: "string \<Rightarrow> string \<Rightarrow> bool" where
  "endswith s x \<equiv> suffix x s"

text \<open>\<open>str(n)\<close> for a natural number, as the f-strings of the alert text need it.\<close>

definition digit_char :: "nat \<Rightarrow> char" where
  "digit_char d = char_of (48 + d)"

function str_nat :: "nat \<Rightarrow> string" where
  "str_nat n = (if n < 10 then [digit_char n] else str_nat (n div 10) @ [digit_char (n mod 10)])"
  by pat_completeness auto
termination
  by (relation "measure id") auto

section \<open>Hostname source client: normalisation of a candidate name\<close>

text \<open>
  The body of the inner loop of \<open>get_subdomains_from_crtsh\<close> (both scripts, and
  \<open>test_crtsh_api\<close>), up to the point where the name is stored:
  \<^verbatim>\<open>
    subdomain = subdomain.strip().lower()
    if subdomain and domain in subdomain:
        subdomain = subdomain.replace('*.', '')
        if subdomain.endswith('.' + domain):
            ... store subdomain ...
  \<close>
  \<open>None\<close> is a rejected candidate, \<open>Some s\<close> an accepted one with its stored form.
\<close>

definition clean_subdomain :: "string \<Rightarrow> string \<Rightarrow> string option" where
  "clean_subdomain domain raw =
     (let subdomain = lower (strip raw) in
      if subdomain \<noteq> [] \<and> contains subdomain domain then
        (let subdomain = replace ''*.'' [] subdomain in
         if endswith subdomain (''.'' @ domain) then Some subdomain else None)
      else None)"

text \<open>
  The normalisation as the specification words it: trim, lowercase, strip one leading
  wildcard label, accept exactly the strict subdomains.
\<close>

definition strip_leading_wildcard :: "string \<Rightarrow> string" where
  "strip_leading_wildcard s = (if prefix ''*.'' s then drop 2 s else s)"

definition spec_normalize :: "string \<Rightarrow> string \<Rightarrow> string option" where
  "spec_normalize domain raw =
     (let h = strip_leading_wildcard (lower (strip raw)) in
      if endswith h (''.'' @ domain) then Some h else None)"


section \<open>Exceptions, HTTP exchanges and the certificate-log payload\<close>

text \<open>
  The exception classes that the scripts raise, catch or can meet. Every one of them is a
  subclass of \<open>Exception\<close>; the first three are subclasses of
  \<open>requests.exceptions.RequestException\<close>.
\<close>

datatype py_exception =
    ConnectionError | Timeout | HTTPError | JSONDecodeError
  | IntegrityError | OperationalError | AttributeError | TypeError

fun is_RequestException :: "py_exception \<Rightarrow> bool" where
  "is_RequestException ConnectionError = True"
| "is_RequestException Timeout = True"
| "is_RequestException HTTPError = True"
| "is_RequestException _ = False"

text \<open>
  One object of the JSON array of crt.sh. A key that is absent or \<open>null\<close> is \<open>None\<close>; the
  values that are present are strings.
\<close>

record entry =
  name_value :: "string option"
  entry_timestamp :: "string option"
  not_before :: "string option"

text \<open>
  What \<open>response.json()\<close> and the loop over it meet: text that is not JSON, the expected
  array of objects, or JSON of another shape on which the loop raises (\<open>AttributeError\<close> from
  \<open>entry.get\<close> on a non-object, \<open>TypeError\<close> from a value that cannot be iterated).
\<close>

datatype body = NotJson | Json "entry list" | JsonRaising py_exception

text \<open>
  What \<open>requests.get\<close> or \<open>requests.post\<close> does: it raises (no usable response), or it
  returns a response with a status code and a body.
\<close>

datatype http_outcome = NoResponse py_exception | Response nat body

definition raise_for_status :: "nat \<Rightarrow> py_exception + unit" where
  "raise_for_status status_code =
     (if 400 \<le> status_code \<and> status_code < 600 then Inl HTTPError else Inr ())"

text \<open>\<open>x or y\<close> on an optional string: \<open>None\<close> and the empty string are falsy.\<close>

definition or_else :: "string option \<Rightarrow> string \<Rightarrow> string" where
  "or_else x y = (case x of None \<Rightarrow> y | Some v \<Rightarrow> if v = [] then y else v)"

definition falsy :: "string option \<Rightarrow> bool" where
  "falsy x = (x = None \<or> x = Some [])"

section \<open>The store: one SQLite table\<close>

text \<open>
  A row of the table \<open>subdomains\<close>. \<open>None\<close> is SQL \<open>NULL\<close>, also for a column that the
  table does not have.
\<close>

record row =
  row_id :: nat
  row_domain :: "string option"
  row_subdomain :: "string option"
  row_first_seen :: "string option"
  row_last_seen :: "string option"
  row_release_date :: "string option"

text \<open>
  The table: its column names (what \<open>PRAGMA table_info\<close> lists), its rows, and the
  counter that \<open>AUTOINCREMENT\<close> keeps in \<open>sqlite_sequence\<close>. The database is
  \<open>table option\<close>: \<open>None\<close> when no table \<open>subdomains\<close> exists.

  Every \<open>CREATE TABLE\<close> of the repository declares \<open>domain\<close> and \<open>subdomain\<close>
  \<open>NOT NULL\<close> and \<open>UNIQUE(domain, subdomain)\<close>, and every \<open>INSERT\<close> names the column
  \<open>domain\<close>; so an insertion reaches only a table with that column, and the model
  checks these constraints on it.
\<close>

record table =
  tbl_columns :: "string list"
  tbl_rows :: "row list"
  tbl_seq :: nat

type_synonym database = "table option"

definition table_info :: "database \<Rightarrow> string list" where
  "table_info d = (case d of None \<Rightarrow> [] | Some t \<Rightarrow> tbl_columns t)"

definition has_columns :: "table \<Rightarrow> string list \<Rightarrow> bool" where
  "has_columns t cs = (set cs \<subseteq> set (tbl_columns t))"

definition next_id :: "table \<Rightarrow> nat" where
  "next_id t = Suc (fold max (map row_id (tbl_rows t)) (tbl_seq t))"

definition pair_exists :: "table \<Rightarrow> string \<Rightarrow> string \<Rightarrow> bool" where
  "pair_exists t d s =
     (\<exists>r \<in> set (tbl_rows t). row_domain r = Some d \<and> row_subdomain r = Some s)"

text \<open>
  \<open>INSERT INTO subdomains (named columns) VALUES (...)\<close> at time \<open>now\<close>
  (\<open>CURRENT_TIMESTAMP\<close>). The values are given as a row whose \<open>row_id\<close> is ignored; a
  column that is not named takes its default: \<open>CURRENT_TIMESTAMP\<close> for \<open>first_seen\<close>
  and \<open>last_seen\<close>, \<open>NULL\<close> for \<open>release_date\<close>. A missing table or column is an
  \<open>OperationalError\<close>, a violated constraint an \<open>IntegrityError\<close>.
\<close>

definition default_now :: "table \<Rightarrow> string list \<Rightarrow> string \<Rightarrow> string \<Rightarrow> string option \<Rightarrow> string option" where
  "default_now t named col now v =
     (if col \<in> set named then v
      else if col \<in> set (tbl_columns t) then Some now else None)"

definition execute_insert :: "string \<Rightarrow> string list \<Rightarrow> row \<Rightarrow> database \<Rightarrow> py_exception + database" where
  "execute_insert now named v d =
     (case d of
        None \<Rightarrow> Inl OperationalError
      | Some t \<Rightarrow>
          if \<not> has_columns t named then Inl OperationalError
          else (case (row_domain v, row_subdomain v) of
                  (Some dm, Some sb) \<Rightarrow>
                    if pair_exists t dm sb then Inl IntegrityError
                    else Inr (Some (t\<lparr>
                      tbl_rows := tbl_rows t @
                        [\<lparr>row_id = next_id t,
                          row_domain = Some dm,
                          row_subdomain = Some sb,
                          row_first_seen = default_now t named ''first_seen'' now (row_first_seen v),
                          row_last_seen = default_now t named ''last_seen'' now (row_last_seen v),
                          row_release_date =
                            (if ''release_date'' \<in> set named then row_release_date v else None)\<rparr>],
                      tbl_seq := next_id t\<rparr>))
                | _ \<Rightarrow> Inl IntegrityError))"

text \<open>
  \<open>UPDATE subdomains SET last_seen = CURRENT_TIMESTAMP WHERE domain = ? AND subdomain = ?\<close>
\<close>

definition touch_row :: "string \<Rightarrow> string \<Rightarrow> string \<Rightarrow> row \<Rightarrow> row" where
  "touch_row now d s r =
     (if row_domain r = Some d \<and> row_subdomain r = Some s
      then r\<lparr>row_last_seen := Some now\<rparr> else r)"

definition execute_update_last_seen :: "string \<Rightarrow> string \<Rightarrow> string \<Rightarrow> database \<Rightarrow> py_exception + database" where
  "execute_update_last_seen now d s db =
     (case db of
        None \<Rightarrow> Inl OperationalError
      | Some t \<Rightarrow>
          if \<not> has_columns t [''last_seen'', ''domain'', ''subdomain''] then Inl OperationalError
          else Inr (Some (t\<lparr>tbl_rows := map (touch_row now d s) (tbl_rows t)\<rparr>)))"

text \<open>\<open>SELECT subdomain FROM subdomains WHERE domain = ?\<close>, as the set of its strings.\<close>

definition select_subdomains :: "string \<Rightarrow> database \<Rightarrow> py_exception + string list" where
  "select_subdomains d db =
     (case db of
        None \<Rightarrow> Inl OperationalError
      | Some t \<Rightarrow>
          if \<not> has_columns t [''subdomain'', ''domain''] then Inl OperationalError
          else Inr (List.map_filter
                      (\<lambda>r. if row_domain r = Some d then row_subdomain r else None)
                      (tbl_rows t)))"

text \<open>
  \<open>SELECT subdomain, first_seen FROM subdomains WHERE domain = ? AND subdomain IN (...)\<close>,
  turned into a dictionary as \<open>{row[0]: row[1] for row in ...}\<close> does: a later row wins.
\<close>

definition select_first_seen :: "string \<Rightarrow> string list \<Rightarrow> database \<Rightarrow> py_exception + (string \<times> string option) list" where
  "select_first_seen d subs db =
     (case db of
        None \<Rightarrow> Inl OperationalError
      | Some t \<Rightarrow>
          if \<not> has_columns t [''subdomain'', ''first_seen'', ''domain''] then Inl OperationalError
          else Inr (rev (List.map_filter
                      (\<lambda>r. case row_subdomain r of
                              None \<Rightarrow> None
                            | Some s \<Rightarrow>
                                if row_domain r = Some d \<and> s \<in> set subs
                                then Some (s, row_first_seen r) else None)
                      (tbl_rows t))))"


section \<open>The world of one cycle, the configuration and the observable state\<close>

datatype sink = Telegram | Discord

text \<open>The calls into SQLite that one cycle makes.\<close>

datatype db_call = KnownRead | SaveWrite | DatesRead sink

text \<open>
  Everything outside the process that one cycle of one domain meets:
  the answer of crt.sh, the answers of the two sinks, a fault that SQLite may raise on a
  call for a reason outside the table (a locked or unreadable file), the two clocks, and
  the order in which a Python \<open>set\<close> of strings is iterated. Python fixes no iteration
  order for a set; the model takes it from a rank on strings (as the hash gives one),
  so that every order of a set is the order under some world.
\<close>

record world =
  crtsh :: http_outcome
  telegram_api :: http_outcome
  discord_api :: http_outcome
  sqlite_fault :: "db_call \<Rightarrow> py_exception option"
  hash_rank :: "string \<Rightarrow> nat"
  current_timestamp :: string
  clock :: string

definition set_iter :: "world \<Rightarrow> string list \<Rightarrow> string list" where
  "set_iter w xs = sort_key (hash_rank w) (remdups xs)"

record config =
  domains :: "string list"
  telegram_bot_token :: "string option"
  telegram_chat_id :: "string option"
  discord_webhook_url :: "string option"

text \<open>
  An alert as it is handed to a sink: the domain, the hostnames in the order of the
  numbered list, and the time of \<open>datetime.now()\<close>. Its text is \<open>alert_text\<close>.
\<close>

record alert =
  alert_domain :: string
  alert_hosts :: "string list"
  alert_clock :: string

text \<open>The \<open>logging.error\<close> calls, by the place that makes them.\<close>

datatype origin = Crtsh | Alert sink | Monitor

text \<open>
  The observable events of a run, oldest first: a \<open>conn.commit()\<close> of
  \<open>save_new_subdomains\<close> for a domain and the hostnames it was given, a call of
  \<open>requests.post\<close> to a sink, an error record in the log.
\<close>

datatype event =
    Committed string "string list"
  | HttpPost sink alert
  | ErrorLogged origin string py_exception

record state =
  db :: database
  trace :: "event list"

definition emit :: "event \<Rightarrow> state \<Rightarrow> state" where
  "emit e st = st\<lparr>trace := trace st @ [e]\<rparr>"

section \<open>Hostname source client\<close>

type_synonym dict = "(string \<times> string) list"

text \<open>
  \<open>entry.get('entry_timestamp') or entry.get('not_before') or ''\<close>
\<close>

definition entry_time_of :: "entry \<Rightarrow> string" where
  "entry_time_of e = or_else (entry_timestamp e) (or_else (not_before e) [])"

text \<open>
  subdomain2.py, lines 115-121: one candidate name of one entry. The dictionary keeps
  its insertion order; storing under an existing key keeps the key's place.
\<close>

definition store_candidate2 :: "string \<Rightarrow> string \<Rightarrow> dict \<Rightarrow> string \<Rightarrow> dict" where
  "store_candidate2 domain entry_time subdomains raw =
     (case clean_subdomain domain raw of
        None \<Rightarrow> subdomains
      | Some subdomain \<Rightarrow>
          (case map_of subdomains subdomain of
             None \<Rightarrow> AList.update subdomain entry_time subdomains
           | Some stored \<Rightarrow>
               if entry_time \<noteq> [] \<and> entry_time < stored
               then AList.update subdomain entry_time subdomains
               else subdomains))"

definition scan_entry2 :: "string \<Rightarrow> dict \<Rightarrow> entry \<Rightarrow> dict" where
  "scan_entry2 domain subdomains e =
     (let nv = or_else (name_value e) [];
          entry_time = entry_time_of e
      in if nv \<noteq> []
         then foldl (store_candidate2 domain entry_time) subdomains (split (CHR 0x0A) nv)
         else subdomains)"

definition scan_entries2 :: "string \<Rightarrow> entry list \<Rightarrow> dict" where
  "scan_entries2 domain data = foldl (scan_entry2 domain) [] data"

text \<open>subdomain_monitor.py, lines 122-133: the same loop into a set of names.\<close>

definition store_candidate1 :: "string \<Rightarrow> string list \<Rightarrow> string \<Rightarrow> string list" where
  "store_candidate1 domain subdomains raw =
     (case clean_subdomain domain raw of
        None \<Rightarrow> subdomains
      | Some subdomain \<Rightarrow> List.insert subdomain subdomains)"

definition scan_entry1 :: "string \<Rightarrow> string list \<Rightarrow> entry \<Rightarrow> string list" where
  "scan_entry1 domain subdomains e =
     (let nv = or_else (name_value e) []
      in if nv \<noteq> []
         then foldl (store_candidate1 domain) subdomains (split (CHR 0x0A) nv)
         else subdomains)"

definition scan_entries1 :: "string \<Rightarrow> entry list \<Rightarrow> string list" where
  "scan_entries1 domain data = foldl (scan_entry1 domain) [] data"

text \<open>
  The \<open>try\<close> block of \<open>get_subdomains_from_crtsh\<close>: \<open>requests.get\<close>,
  \<open>raise_for_status\<close>, \<open>response.json()\<close> and the loop.
\<close>

definition fetch_json :: "http_outcome \<Rightarrow> py_exception + entry list" where
  "fetch_json outcome =
     (case outcome of
        NoResponse e \<Rightarrow> Inl e
      | Response status_code b \<Rightarrow>
          (case raise_for_status status_code of
             Inl e \<Rightarrow> Inl e
           | Inr _ \<Rightarrow>
               (case b of
                  NotJson \<Rightarrow> Inl JSONDecodeError
                | JsonRaising e \<Rightarrow> Inl e
                | Json data \<Rightarrow> Inr data)))"

text \<open>
  \<open>get_subdomains_from_crtsh\<close>: the two \<open>except\<close> clauses turn a
  \<open>RequestException\<close> and a \<open>JSONDecodeError\<close> into a logged error and an empty
  result; any other exception leaves the function.
\<close>

definition get_subdomains_from_crtsh2 :: "world \<Rightarrow> string \<Rightarrow> state \<Rightarrow> (py_exception + dict) \<times> state" where
  "get_subdomains_from_crtsh2 w domain st =
     (case fetch_json (crtsh w) of
        Inr data \<Rightarrow> (Inr (scan_entries2 domain data), st)
      | Inl e \<Rightarrow>
          if is_RequestException e then (Inr [], emit (ErrorLogged Crtsh domain e) st)
          else if e = JSONDecodeError then (Inr [], emit (ErrorLogged Crtsh domain e) st)
          else (Inl e, st))"

definition get_subdomains_from_crtsh1 :: "world \<Rightarrow> string \<Rightarrow> state \<Rightarrow> (py_exception + string list) \<times> state" where
  "get_subdomains_from_crtsh1 w domain st =
     (case fetch_json (crtsh w) of
        Inr data \<Rightarrow> (Inr (scan_entries1 domain data), st)
      | Inl e \<Rightarrow>
          if is_RequestException e then (Inr [], emit (ErrorLogged Crtsh domain e) st)
          else if e = JSONDecodeError then (Inr [], emit (ErrorLogged Crtsh domain e) st)
          else (Inl e, st))"


section \<open>Subdomain store operations\<close>

text \<open>\<open>get_known_subdomains\<close> (the same in both scripts).\<close>

definition get_known_subdomains :: "world \<Rightarrow> string \<Rightarrow> database \<Rightarrow> py_exception + string list" where
  "get_known_subdomains w domain d =
     (case sqlite_fault w KnownRead of
        Some e \<Rightarrow> Inl e
      | None \<Rightarrow> select_subdomains domain d)"

text \<open>
  The body of the loop of \<open>save_new_subdomains\<close>: the \<open>INSERT\<close>, and on
  \<open>IntegrityError\<close> the \<open>UPDATE\<close> of \<open>last_seen\<close>. The two scripts differ in the
  columns that the \<open>INSERT\<close> names and in the release date it stores.
\<close>

definition save_row :: "string \<Rightarrow> string list \<Rightarrow> string \<Rightarrow> string \<Rightarrow> string option \<Rightarrow> database \<Rightarrow> py_exception + database" where
  "save_row now named domain subdomain release_date d =
     (case execute_insert now named
             \<lparr>row_id = 0, row_domain = Some domain, row_subdomain = Some subdomain,
              row_first_seen = None, row_last_seen = None,
              row_release_date = release_date\<rparr> d of
        Inr d' \<Rightarrow> Inr d'
      | Inl e \<Rightarrow>
          if e = IntegrityError then execute_update_last_seen now domain subdomain d
          else Inl e)"

fun save_rows :: "string \<Rightarrow> string list \<Rightarrow> string \<Rightarrow> (string \<Rightarrow> string option) \<Rightarrow> string list \<Rightarrow> database \<Rightarrow> py_exception + database" where
  "save_rows now named domain rel [] d = Inr d"
| "save_rows now named domain rel (subdomain # rest) d =
     (case save_row now named domain subdomain (rel subdomain) d of
        Inl e \<Rightarrow> Inl e
      | Inr d' \<Rightarrow> save_rows now named domain rel rest d')"

text \<open>
  \<open>release_date = None; if crtsh_subdomains and subdomain in crtsh_subdomains: ...\<close>
  (an absent dictionary and an empty one are both the empty list here).
\<close>

definition release_date_of :: "dict \<Rightarrow> string \<Rightarrow> string option" where
  "release_date_of crtsh_subdomains subdomain =
     (if crtsh_subdomains \<noteq> [] \<and> subdomain \<in> set (map fst crtsh_subdomains)
      then map_of crtsh_subdomains subdomain else None)"

text \<open>
  \<open>save_new_subdomains\<close>. The set of new names arrives in its iteration order. The rows
  are written in one transaction: an exception that leaves the loop leaves before
  \<open>conn.commit()\<close>, and the database is as it was.
\<close>

definition save_new_subdomains2 :: "world \<Rightarrow> string \<Rightarrow> string list \<Rightarrow> dict \<Rightarrow> state \<Rightarrow> (py_exception + unit) \<times> state" where
  "save_new_subdomains2 w domain new_subdomains crtsh_subdomains st =
     (if new_subdomains = [] then (Inr (), st)
      else (case sqlite_fault w SaveWrite of
              Some e \<Rightarrow> (Inl e, st)
            | None \<Rightarrow>
                (case save_rows (current_timestamp w) [''domain'', ''subdomain'', ''release_date'']
                        domain (release_date_of crtsh_subdomains) new_subdomains (db st) of
                   Inl e \<Rightarrow> (Inl e, st)
                 | Inr d' \<Rightarrow> (Inr (), emit (Committed domain new_subdomains) (st\<lparr>db := d'\<rparr>)))))"

definition save_new_subdomains1 :: "world \<Rightarrow> string \<Rightarrow> string list \<Rightarrow> state \<Rightarrow> (py_exception + unit) \<times> state" where
  "save_new_subdomains1 w domain new_subdomains st =
     (if new_subdomains = [] then (Inr (), st)
      else (case sqlite_fault w SaveWrite of
              Some e \<Rightarrow> (Inl e, st)
            | None \<Rightarrow>
                (case save_rows (current_timestamp w) [''domain'', ''subdomain'']
                        domain (\<lambda>s. None) new_subdomains (db st) of
                   Inl e \<Rightarrow> (Inl e, st)
                 | Inr d' \<Rightarrow> (Inr (), emit (Committed domain new_subdomains) (st\<lparr>db := d'\<rparr>)))))"

text \<open>\<open>get_subdomain_dates\<close> (subdomain2.py).\<close>

definition get_subdomain_dates :: "world \<Rightarrow> sink \<Rightarrow> string \<Rightarrow> string list \<Rightarrow> database \<Rightarrow> py_exception + (string \<times> string option) list" where
  "get_subdomain_dates w sk domain subdomains d =
     (case sqlite_fault w (DatesRead sk) of
        Some e \<Rightarrow> Inl e
      | None \<Rightarrow> select_first_seen domain subdomains d)"

section \<open>Notifier\<close>

definition newline :: string where
  "newline = [CHR 0x0A]"

text \<open>
  The message of both sinks: the header with the domain and the count, the numbered
  list, the capture time. The two glyphs are the bytes that the script has before
  the header and before \<open>Detected at\<close>.
\<close>

definition alert_line :: "nat \<times> string \<Rightarrow> string" where
  "alert_line p = str_nat (fst p) @ ''. `'' @ snd p @ ''`'' @ newline"

definition alert_text :: "string \<Rightarrow> string \<Rightarrow> alert \<Rightarrow> string" where
  "alert_text glyph1 glyph2 a =
     glyph1 @ '' **New Subdomains Detected for '' @ alert_domain a @ ''**'' @ newline @ newline
     @ ''Found '' @ str_nat (length (alert_hosts a)) @ '' new subdomain(s):'' @ newline @ newline
     @ concat (map alert_line (enumerate 1 (alert_hosts a)))
     @ newline @ glyph2 @ '' Detected at: '' @ alert_clock a"


definition alert_text1 :: "alert \<Rightarrow> string" where
  "alert_text1 = alert_text
     [CHR 0xEF, CHR 0xA3, CHR 0xBF, CHR 0xC3, CHR 0xBC, CHR 0xC3, CHR 0xB6, CHR 0xC2, CHR 0xAE]
     [CHR 0xE2, CHR 0x80, CHR 0x9A, CHR 0xC3, CHR 0xA8, CHR 0xE2, CHR 0x88, CHR 0x9E]"

text \<open>
  The end of both alert functions: \<open>requests.post\<close>, \<open>raise_for_status\<close>, and the
  \<open>except requests.exceptions.RequestException\<close> that logs and returns.
\<close>

definition post_result :: "http_outcome \<Rightarrow> py_exception + unit" where
  "post_result outcome =
     (case outcome of
        NoResponse e \<Rightarrow> Inl e
      | Response status_code b \<Rightarrow> raise_for_status status_code)"

definition deliver :: "sink \<Rightarrow> http_outcome \<Rightarrow> alert \<Rightarrow> state \<Rightarrow> (py_exception + unit) \<times> state" where
  "deliver sk outcome a st =
     (let st1 = emit (HttpPost sk a) st in
      case post_result outcome of
        Inr _ \<Rightarrow> (Inr (), st1)
      | Inl e \<Rightarrow>
          if is_RequestException e
          then (Inr (), emit (ErrorLogged (Alert sk) (alert_domain a) e) st1)
          else (Inl e, st1))"

text \<open>
  subdomain2.py: the order of the list. With a non-empty dictionary of release dates the
  key of a name is its date, or \<open>'9999-99-99 99:99:99'\<close> when the dictionary has no such
  key; otherwise the key is the \<open>first_seen\<close> of the store. \<open>sorted\<close> is stable
  (\<open>sort_key\<close> is), and comparing \<open>None\<close> raises \<open>TypeError\<close>.
\<close>

definition date_key :: "dict \<Rightarrow> string \<Rightarrow> string" where
  "date_key dates s = (case map_of dates s of Some t \<Rightarrow> t | None \<Rightarrow> ''9999-99-99 99:99:99'')"

definition stored_key :: "(string \<times> string option) list \<Rightarrow> string \<Rightarrow> string option" where
  "stored_key dates s = (case map_of dates s of Some v \<Rightarrow> v | None \<Rightarrow> Some ''9999-99-99 99:99:99'')"

definition sorted_subdomains2 :: "world \<Rightarrow> sink \<Rightarrow> string \<Rightarrow> string list \<Rightarrow> dict \<Rightarrow> database \<Rightarrow> py_exception + string list" where
  "sorted_subdomains2 w sk domain new_subdomains crtsh_subdomains d =
     (if crtsh_subdomains \<noteq> []
      then Inr (sort_key (date_key crtsh_subdomains) new_subdomains)
      else (case get_subdomain_dates w sk domain new_subdomains d of
              Inl e \<Rightarrow> Inl e
            | Inr subdomain_dates \<Rightarrow>
                if 2 \<le> length new_subdomains
                   \<and> (\<exists>s \<in> set new_subdomains. stored_key subdomain_dates s = None)
                then Inl TypeError
                else Inr (sort_key (\<lambda>s. case stored_key subdomain_dates s of
                                           Some t \<Rightarrow> t | None \<Rightarrow> [])
                            new_subdomains)))"

definition send_telegram_alert2 :: "config \<Rightarrow> world \<Rightarrow> string \<Rightarrow> string list \<Rightarrow> dict \<Rightarrow> state \<Rightarrow> (py_exception + unit) \<times> state" where
  "send_telegram_alert2 cfg w domain new_subdomains crtsh_subdomains st =
     (if falsy (telegram_bot_token cfg) \<or> falsy (telegram_chat_id cfg) \<or> new_subdomains = []
      then (Inr (), st)
      else (case sorted_subdomains2 w Telegram domain new_subdomains crtsh_subdomains (db st) of
              Inl e \<Rightarrow> (Inl e, st)
            | Inr ordered \<Rightarrow>
                deliver Telegram (telegram_api w)
                  \<lparr>alert_domain = domain, alert_hosts = ordered, alert_clock = clock w\<rparr> st))"

definition send_discord_alert2 :: "config \<Rightarrow> world \<Rightarrow> string \<Rightarrow> string list \<Rightarrow> dict \<Rightarrow> state \<Rightarrow> (py_exception + unit) \<times> state" where
  "send_discord_alert2 cfg w domain new_subdomains crtsh_subdomains st =
     (if falsy (discord_webhook_url cfg) \<or> new_subdomains = []
      then (Inr (), st)
      else (case sorted_subdomains2 w Discord domain new_subdomains crtsh_subdomains (db st) of
              Inl e \<Rightarrow> (Inl e, st)
            | Inr ordered \<Rightarrow>
                deliver Discord (discord_api w)
                  \<lparr>alert_domain = domain, alert_hosts = ordered, alert_clock = clock w\<rparr> st))"

text \<open>subdomain_monitor.py: the list is \<open>sorted(new_subdomains)\<close>.\<close>

definition send_telegram_alert1 :: "config \<Rightarrow> world \<Rightarrow> string \<Rightarrow> string list \<Rightarrow> state \<Rightarrow> (py_exception + unit) \<times> state" where
  "send_telegram_alert1 cfg w domain new_subdomains st =
     (if falsy (telegram_bot_token cfg) \<or> falsy (telegram_chat_id cfg) \<or> new_subdomains = []
      then (Inr (), st)
      else deliver Telegram (telegram_api w)
             \<lparr>alert_domain = domain, alert_hosts = sort new_subdomains, alert_clock = clock w\<rparr> st)"

definition send_discord_alert1 :: "config \<Rightarrow> world \<Rightarrow> string \<Rightarrow> string list \<Rightarrow> state \<Rightarrow> (py_exception + unit) \<times> state" where
  "send_discord_alert1 cfg w domain new_subdomains st =
     (if falsy (discord_webhook_url cfg) \<or> new_subdomains = []
      then (Inr (), st)
      else deliver Discord (discord_api w)
             \<lparr>alert_domain = domain, alert_hosts = sort new_subdomains, alert_clock = clock w\<rparr> st)"


section \<open>Domain monitor: one cycle\<close>

text \<open>
  \<open>new_subdomains = current_subdomains - known_subdomains\<close>, as the set that the rest
  of the cycle iterates.
\<close>

definition set_difference :: "world \<Rightarrow> string list \<Rightarrow> string list \<Rightarrow> string list" where
  "set_difference w current known = set_iter w (filter (\<lambda>s. s \<notin> set known) current)"

text \<open>The \<open>try\<close> block of \<open>monitor_domain\<close> in subdomain2.py.\<close>

definition monitor_body2 :: "config \<Rightarrow> world \<Rightarrow> string \<Rightarrow> state \<Rightarrow> (py_exception + unit) \<times> state" where
  "monitor_body2 cfg w domain st =
     (case get_subdomains_from_crtsh2 w domain st of
        (Inl e, st1) \<Rightarrow> (Inl e, st1)
      | (Inr crtsh_subdomains, st1) \<Rightarrow>
          (let current_subdomains = map fst crtsh_subdomains in
           case get_known_subdomains w domain (db st1) of
             Inl e \<Rightarrow> (Inl e, st1)
           | Inr known_subdomains \<Rightarrow>
               (let new_subdomains = set_difference w current_subdomains known_subdomains in
                if new_subdomains \<noteq> [] then
                  (case save_new_subdomains2 w domain new_subdomains crtsh_subdomains st1 of
                     (Inl e, st2) \<Rightarrow> (Inl e, st2)
                   | (Inr _, st2) \<Rightarrow>
                       (case send_telegram_alert2 cfg w domain new_subdomains crtsh_subdomains st2 of
                          (Inl e, st3) \<Rightarrow> (Inl e, st3)
                        | (Inr _, st3) \<Rightarrow>
                            send_discord_alert2 cfg w domain new_subdomains crtsh_subdomains st3))
                else (Inr (), st1))))"

text \<open>\<open>monitor_domain\<close>: the \<open>try\<close> block under \<open>except Exception\<close>, which logs.\<close>

definition monitor_domain2 :: "config \<Rightarrow> world \<Rightarrow> string \<Rightarrow> state \<Rightarrow> (py_exception + unit) \<times> state" where
  "monitor_domain2 cfg w domain st =
     (case monitor_body2 cfg w domain st of
        (Inl e, st') \<Rightarrow> (Inr (), emit (ErrorLogged Monitor domain e) st')
      | (Inr u, st') \<Rightarrow> (Inr u, st'))"

text \<open>The same in subdomain_monitor.py, where the fetch returns the set itself.\<close>

definition monitor_body1 :: "config \<Rightarrow> world \<Rightarrow> string \<Rightarrow> state \<Rightarrow> (py_exception + unit) \<times> state" where
  "monitor_body1 cfg w domain st =
     (case get_subdomains_from_crtsh1 w domain st of
        (Inl e, st1) \<Rightarrow> (Inl e, st1)
      | (Inr current_subdomains, st1) \<Rightarrow>
          (case get_known_subdomains w domain (db st1) of
             Inl e \<Rightarrow> (Inl e, st1)
           | Inr known_subdomains \<Rightarrow>
               (let new_subdomains = set_difference w current_subdomains known_subdomains in
                if new_subdomains \<noteq> [] then
                  (case save_new_subdomains1 w domain new_subdomains st1 of
                     (Inl e, st2) \<Rightarrow> (Inl e, st2)
                   | (Inr _, st2) \<Rightarrow>
                       (case send_telegram_alert1 cfg w domain new_subdomains st2 of
                          (Inl e, st3) \<Rightarrow> (Inl e, st3)
                        | (Inr _, st3) \<Rightarrow>
                            send_discord_alert1 cfg w domain new_subdomains st3))
                else (Inr (), st1))))"

definition monitor_domain1 :: "config \<Rightarrow> world \<Rightarrow> string \<Rightarrow> state \<Rightarrow> (py_exception + unit) \<times> state" where
  "monitor_domain1 cfg w domain st =
     (case monitor_body1 cfg w domain st of
        (Inl e, st') \<Rightarrow> (Inr (), emit (ErrorLogged Monitor domain e) st')
      | (Inr u, st') \<Rightarrow> (Inr u, st'))"

text \<open>
  A run: cycles one after the other, each for its domain in its world. A cycle that
  raised would end the run (the thread of that cycle dies with the exception).
\<close>

fun run_cycles2 :: "config \<Rightarrow> (string \<times> world) list \<Rightarrow> state \<Rightarrow> (py_exception + unit) \<times> state" where
  "run_cycles2 cfg [] st = (Inr (), st)"
| "run_cycles2 cfg (c # cs) st =
     (case monitor_domain2 cfg (snd c) (fst c) st of
        (Inl e, st') \<Rightarrow> (Inl e, st')
      | (Inr _, st') \<Rightarrow> run_cycles2 cfg cs st')"

fun run_cycles1 :: "config \<Rightarrow> (string \<times> world) list \<Rightarrow> state \<Rightarrow> (py_exception + unit) \<times> state" where
  "run_cycles1 cfg [] st = (Inr (), st)"
| "run_cycles1 cfg (c # cs) st =
     (case monitor_domain1 cfg (snd c) (fst c) st of
        (Inl e, st') \<Rightarrow> (Inl e, st')
      | (Inr _, st') \<Rightarrow> run_cycles1 cfg cs st')"

section \<open>Store initialisation and schema migration\<close>

definition schema1 :: "string list" where
  "schema1 = [''id'', ''domain'', ''subdomain'', ''first_seen'', ''last_seen'']"

definition schema2 :: "string list" where
  "schema2 = [''id'', ''domain'', ''subdomain'', ''first_seen'', ''last_seen'', ''release_date'']"

definition create_table :: "string list \<Rightarrow> database" where
  "create_table cols = Some \<lparr>tbl_columns = cols, tbl_rows = [], tbl_seq = 0\<rparr>"

definition create_table_if_not_exists :: "string list \<Rightarrow> database \<Rightarrow> database" where
  "create_table_if_not_exists cols d = (case d of None \<Rightarrow> create_table cols | Some t \<Rightarrow> Some t)"



text \<open>\<open>SELECT subdomain, first_seen, last_seen FROM subdomains\<close>\<close>

definition select_old_data :: "database \<Rightarrow> py_exception + (string option \<times> string option \<times> string option) list" where
  "select_old_data d =
     (case d of
        None \<Rightarrow> Inl OperationalError
      | Some t \<Rightarrow>
          if \<not> has_columns t [''subdomain'', ''first_seen'', ''last_seen''] then Inl OperationalError
          else Inr (map (\<lambda>r. (row_subdomain r, row_first_seen r, row_last_seen r)) (tbl_rows t)))"

text \<open>
  The loop of the migration: one
  \<open>INSERT INTO subdomains (domain, subdomain, first_seen, last_seen) VALUES (?, ?, ?, ?)\<close>
  for each old row. Nothing catches its exceptions.
\<close>

fun migrate_rows :: "string \<Rightarrow> string \<Rightarrow> (string option \<times> string option \<times> string option) list \<Rightarrow> database \<Rightarrow> py_exception + database" where
  "migrate_rows now default_domain [] d = Inr d"
| "migrate_rows now default_domain (old # rest) d =
     (case execute_insert now [''domain'', ''subdomain'', ''first_seen'', ''last_seen'']
             \<lparr>row_id = 0, row_domain = Some default_domain, row_subdomain = fst old,
              row_first_seen = fst (snd old), row_last_seen = snd (snd old),
              row_release_date = None\<rparr> d of
        Inl e \<Rightarrow> Inl e
      | Inr d' \<Rightarrow> migrate_rows now default_domain rest d')"

text \<open>
  \<open>init_database\<close> of subdomain_monitor.py, with \<open>self.domains\<close>. \<open>DROP TABLE\<close> and
  \<open>CREATE TABLE\<close> take effect at once (the sqlite3 module opens a transaction before
  an \<open>INSERT\<close> only), so a migration that raises in its loop leaves the new, empty table.
\<close>

definition init_database1 :: "string \<Rightarrow> string list \<Rightarrow> database \<Rightarrow> (py_exception + unit) \<times> database" where
  "init_database1 now doms d =
     (let cols = table_info d in
      if ''domain'' \<notin> set cols then
        (case select_old_data d of
           Inl e \<Rightarrow> (Inl e, d)
         | Inr old_data \<Rightarrow>
             (let fresh = create_table schema1 in
              if old_data \<noteq> [] \<and> doms \<noteq> [] then
                (case migrate_rows now (hd doms) old_data fresh of
                   Inl e \<Rightarrow> (Inl e, fresh)
                 | Inr d' \<Rightarrow> (Inr (), d'))
              else (Inr (), fresh)))
      else (Inr (), create_table_if_not_exists schema1 d))"


section \<open>Notions used to state the properties\<close>

text \<open>The pairs (domain, hostname) that the store holds, and what a cycle reads as known.\<close>

definition stored :: "database \<Rightarrow> (string \<times> string) set" where
  "stored d = (case d of None \<Rightarrow> {} | Some t \<Rightarrow> {(dm, s). pair_exists t dm s})"

definition known_set :: "string \<Rightarrow> database \<Rightarrow> string set" where
  "known_set domain d = {s. (domain, s) \<in> stored d}"

text \<open>The invariant \<open>UNIQUE(domain, subdomain)\<close>, and the number of rows of one pair.\<close>

definition unique_pairs :: "table \<Rightarrow> bool" where
  "unique_pairs t = distinct (map (\<lambda>r. (row_domain r, row_subdomain r)) (tbl_rows t))"

definition pair_count :: "table \<Rightarrow> string \<Rightarrow> string \<Rightarrow> nat" where
  "pair_count t d s =
     length (filter (\<lambda>r. row_domain r = Some d \<and> row_subdomain r = Some s) (tbl_rows t))"

text \<open>A row without its \<open>last_seen\<close>: two rows that agree on it differ in \<open>last_seen\<close> at most.\<close>

definition forget_last_seen :: "row \<Rightarrow> row" where
  "forget_last_seen r = r\<lparr>row_last_seen := None\<rparr>"

text \<open>The posts and the commits of a trace, in order.\<close>

fun posts :: "event list \<Rightarrow> (sink \<times> alert) list" where
  "posts [] = []"
| "posts (HttpPost sk a # es) = (sk, a) # posts es"
| "posts (e # es) = posts es"

fun commits :: "event list \<Rightarrow> (string \<times> string list) list" where
  "commits [] = []"
| "commits (Committed d hs # es) = (d, hs) # commits es"
| "commits (e # es) = commits es"

text \<open>Every (sink, domain, hostname) that a trace announces, once for each time it does.\<close>

definition announcements :: "event list \<Rightarrow> (sink \<times> string \<times> string) list" where
  "announcements tr =
     concat (map (\<lambda>p. map (\<lambda>h. (fst p, alert_domain (snd p), h)) (alert_hosts (snd p))) (posts tr))"

text \<open>
  The failures of the fetch that the specification names: a network error, a response
  status for which \<open>raise_for_status\<close> raises, a malformed payload. A payload is
  malformed when it is not JSON, and also when it is JSON of another shape than an
  array of objects.
\<close>

definition fetch_fails :: "http_outcome \<Rightarrow> bool" where
  "fetch_fails outcome =
     (case outcome of
        NoResponse e \<Rightarrow> is_RequestException e
      | Response status_code b \<Rightarrow>
          (400 \<le> status_code \<and> status_code < 600)
          \<or> (case b of NotJson \<Rightarrow> True | JsonRaising e \<Rightarrow> True | Json data \<Rightarrow> False))"








text \<open>
  A world in which nothing fails and nothing is found, a configuration with both sinks,
  and an empty store of the current schema; the examples below vary them.
\<close>

definition quiet_world :: world where
  "quiet_world =
     \<lparr>crtsh = Response 200 (Json []),
      telegram_api = Response 200 NotJson,
      discord_api = Response 204 NotJson,
      sqlite_fault = (\<lambda>c. None),
      hash_rank = (\<lambda>s. 0),
      current_timestamp = ''2024-03-01 00:00:00'',
      clock = ''2024-03-01 01:00:00''\<rparr>"

definition both_sinks :: config where
  "both_sinks =
     \<lparr>domains = [''example.com''],
      telegram_bot_token = Some ''token'',
      telegram_chat_id = Some ''chat'',
      discord_webhook_url = Some ''https://discord.example/hook''\<rparr>"

definition empty_store :: state where
  "empty_store = \<lparr>db = create_table schema2, trace = []\<rparr>"

text \<open>An empty store as subdomain_monitor.py and reset_database.py create it.\<close>

definition empty_store1 :: state where
  "empty_store1 = \<lparr>db = create_table schema1, trace = []\<rparr>"

definition names_entry :: "string \<Rightarrow> string option \<Rightarrow> entry" where
  "names_entry nv ts = \<lparr>name_value = Some nv, entry_timestamp = ts, not_before = None\<rparr>"


text \<open>A table of the current schema with one row.\<close>

definition one_row_table :: table where
  "one_row_table =
     \<lparr>tbl_columns = schema2,
      tbl_rows = [\<lparr>row_id = 1, row_domain = Some ''example.com'',
                  row_subdomain = Some ''api.example.com'',
                  row_first_seen = Some ''2024-02-01 00:00:00'',
                  row_last_seen = Some ''2024-02-01 00:00:00'',
                  row_release_date = None\<rparr>],
      tbl_seq = 1\<rparr>"



text \<open>
  The hostnames that a stretch of a trace commits, and those that it posts to a sink.
\<close>

definition committed_hosts :: "event list \<Rightarrow> string set" where
  "committed_hosts evs = set (concat (map snd (commits evs)))"

definition posted_hosts :: "sink \<Rightarrow> event list \<Rightarrow> string set" where
  "posted_hosts sk evs =
     set (concat (map (\<lambda>p. alert_hosts (snd p)) (filter (\<lambda>p. fst p = sk) (posts evs))))"

text \<open>
  The events of a cycle that found the new hostnames \<open>new\<close>: the commit first, then at
  most one post for each sink, each for this domain and listing exactly \<open>new\<close>.
\<close>

definition alert_lists :: "string \<Rightarrow> string list \<Rightarrow> sink \<times> alert \<Rightarrow> bool" where
  "alert_lists domain new p = (alert_domain (snd p) = domain \<and> mset (alert_hosts (snd p)) = mset new)"

definition cycle_events :: "string \<Rightarrow> string list \<Rightarrow> event list \<Rightarrow> bool" where
  "cycle_events domain new evs =
     (\<exists>rest. evs = Committed domain new # rest
            \<and> commits rest = []
            \<and> list_all (alert_lists domain new) (posts rest)
            \<and> distinct (map fst (posts rest)))"

text \<open>
  A cycle in which nothing fails outside the sinks' reach: crt.sh answers with the
  expected JSON, SQLite raises no fault, and a sink either accepts the post or fails
  with a \<open>RequestException\<close>. The hostnames that such a fetch yields.
\<close>

definition post_ok :: "http_outcome \<Rightarrow> bool" where
  "post_ok outcome = (case post_result outcome of Inr u \<Rightarrow> True | Inl e \<Rightarrow> is_RequestException e)"

definition cycle_succeeds :: "world \<Rightarrow> bool" where
  "cycle_succeeds w =
     ((case fetch_json (crtsh w) of Inr data \<Rightarrow> True | Inl e \<Rightarrow> False)
      \<and> sqlite_fault w KnownRead = None \<and> sqlite_fault w SaveWrite = None
      \<and> post_ok (telegram_api w) \<and> post_ok (discord_api w))"

definition fetched2 :: "world \<Rightarrow> string \<Rightarrow> string set" where
  "fetched2 w domain =
     (case fetch_json (crtsh w) of
        Inr data \<Rightarrow> set (map fst (scan_entries2 domain data))
      | Inl e \<Rightarrow> {})"

definition fetched1 :: "world \<Rightarrow> string \<Rightarrow> string set" where
  "fetched1 w domain =
     (case fetch_json (crtsh w) of
        Inr data \<Rightarrow> set (scan_entries1 domain data)
      | Inl e \<Rightarrow> {})"

definition telegram_enabled :: "config \<Rightarrow> bool" where
  "telegram_enabled cfg = (\<not> falsy (telegram_bot_token cfg) \<and> \<not> falsy (telegram_chat_id cfg))"

definition discord_enabled :: "config \<Rightarrow> bool" where
  "discord_enabled cfg = (\<not> falsy (discord_webhook_url cfg))"

text \<open>An alert function leaves the store alone and posts at most once, for the given names.\<close>

definition alert_effect :: "sink \<Rightarrow> string \<Rightarrow> string list \<Rightarrow> state \<Rightarrow> state \<Rightarrow> bool" where
  "alert_effect sk domain new st st' =
     (db st' = db st
      \<and> (\<exists>evs. trace st' = trace st @ evs \<and> commits evs = []
               \<and> (posts evs = []
                   \<or> (\<exists>a. posts evs = [(sk, a)] \<and> alert_domain a = domain
                           \<and> mset (alert_hosts a) = mset new))))"

text \<open>The shape of one cycle, whatever the world does.\<close>

definition cycle_shape :: "string \<Rightarrow> string set \<Rightarrow> state \<Rightarrow> state \<Rightarrow> bool" where
  "cycle_shape domain fetched st st' =
     (\<exists>evs. trace st' = trace st @ evs
        \<and> ((db st' = db st \<and> posts evs = [] \<and> commits evs = [])
            \<or> (\<exists>new. new \<noteq> [] \<and> distinct new
                  \<and> set new = fetched - known_set domain (db st)
                  \<and> cycle_events domain new evs
                  \<and> stored (db st') = stored (db st) \<union> {domain} \<times> set new)))"

text \<open>No announcement is made twice, and every announced pair is in the store.\<close>

definition announced_once :: "state \<Rightarrow> bool" where
  "announced_once st =
     (distinct (announcements (trace st))
      \<and> snd ` set (announcements (trace st)) \<subseteq> stored (db st))"

text \<open>The announcements of one post.\<close>

definition announce :: "sink \<times> alert \<Rightarrow> (sink \<times> string \<times> string) list" where
  "announce p = map (\<lambda>h. (fst p, alert_domain (snd p), h)) (alert_hosts (snd p))"

text \<open>A world in which crt.sh reports one hostname and both sinks fail.\<close>

definition failing_sinks_world :: world where
  "failing_sinks_world =
     quiet_world\<lparr>crtsh := Response 200 (Json
                    [names_entry ''www.example.com'' (Some ''2024-01-01T00:00:00'')]),
                 telegram_api := NoResponse ConnectionError,
                 discord_api := Response 500 NotJson\<rparr>"


definition crashing_sink_world :: world where
  "crashing_sink_world = failing_sinks_world\<lparr>telegram_api := NoResponse TypeError\<rparr>"

definition odd_json_world :: world where
  "odd_json_world = quiet_world\<lparr>crtsh := Response 200 (JsonRaising AttributeError)\<rparr>"


text \<open>
  The worlds of the scenario of the specification (the first fetch reports \<open>api\<close> and
  \<open>www\<close>, the second adds \<open>new\<close>), a world that reports \<open>api\<close> alone, and a store
  that already knows \<open>api\<close>.
\<close>

definition scenario_world1 :: world where
  "scenario_world1 =
     quiet_world\<lparr>crtsh := Response 200 (Json
        [names_entry ''api.example.com'' None, names_entry ''www.example.com'' None])\<rparr>"

definition scenario_world2 :: world where
  "scenario_world2 =
     quiet_world\<lparr>crtsh := Response 200 (Json
        [names_entry ''api.example.com'' None, names_entry ''www.example.com'' None,
         names_entry ''new.example.com'' None])\<rparr>"

definition api_world :: world where
  "api_world =
     quiet_world\<lparr>crtsh := Response 200 (Json
        [names_entry ''api.example.com'' (Some ''2024-02-01T00:00:00'')])\<rparr>"

definition api_known_store :: state where
  "api_known_store = \<lparr>db = Some one_row_table, trace = []\<rparr>"

text \<open>An alert function in a cycle that succeeds: it returns, and posts if its sink is enabled.\<close>

definition alert_done :: "sink \<Rightarrow> bool \<Rightarrow> string list \<Rightarrow> state \<Rightarrow> (py_exception + unit) \<times> state \<Rightarrow> bool" where
  "alert_done sk enabled new st res =
     (\<exists>lg. res = (Inr (), st\<lparr>trace := trace st @ lg\<rparr>)
          \<and> commits lg = []
          \<and> posted_hosts sk lg = (if enabled then set new else {})
          \<and> (\<forall>sk'. sk' \<noteq> sk \<longrightarrow> posted_hosts sk' lg = {}))"

text \<open>What a cycle that succeeds returns and leaves, for the fetched set \<open>fetched\<close>.\<close>

definition cycle_result :: "config \<Rightarrow> string \<Rightarrow> string set \<Rightarrow> table \<Rightarrow> state \<Rightarrow> (py_exception + unit) \<times> state \<Rightarrow> bool" where
  "cycle_result cfg domain fetched t st res =
     (\<exists>st' evs t'. res = (Inr (), st') \<and> trace st' = trace st @ evs
        \<and> committed_hosts evs = fetched - known_set domain (db st)
        \<and> posted_hosts Telegram evs
            = (if telegram_enabled cfg then fetched - known_set domain (db st) else {})
        \<and> posted_hosts Discord evs
            = (if discord_enabled cfg then fetched - known_set domain (db st) else {})
        \<and> db st' = Some t' \<and> tbl_columns t' = tbl_columns t
        \<and> known_set domain (db st') = known_set domain (db st) \<union> fetched)"






text \<open>
  Two more tables without the column \<open>domain\<close>: one that holds a hostname twice, and
  one that has no column \<open>last_seen\<close>.
\<close>

definition duplicate_legacy_table :: table where
  "duplicate_legacy_table =
     \<lparr>tbl_columns = [''id'', ''subdomain'', ''first_seen'', ''last_seen''],
      tbl_rows =
        [\<lparr>row_id = 1, row_domain = None, row_subdomain = Some ''www.old.com'',
          row_first_seen = Some ''2023-05-01 10:00:00'',
          row_last_seen = Some ''2023-06-01 10:00:00'', row_release_date = None\<rparr>,
         \<lparr>row_id = 2, row_domain = None, row_subdomain = Some ''www.old.com'',
          row_first_seen = Some ''2023-05-02 10:00:00'',
          row_last_seen = Some ''2023-06-02 10:00:00'', row_release_date = None\<rparr>],
      tbl_seq = 2\<rparr>"

definition narrow_legacy_table :: table where
  "narrow_legacy_table =
     \<lparr>tbl_columns = [''id'', ''subdomain'', ''first_seen''],
      tbl_rows =
        [\<lparr>row_id = 1, row_domain = None, row_subdomain = Some ''www.old.com'',
          row_first_seen = Some ''2023-05-01 10:00:00'',
          row_last_seen = None, row_release_date = None\<rparr>],
      tbl_seq = 1\<rparr>"

section \<open>Normalisation of candidate names\<close>

lemma replace_wild_absent: "\<not> sublist ''*.'' s \<Longrightarrow> replace ''*.'' [] s = s"
proof (induction s)
  case Nil
  then show ?case by simp
next
  case (Cons c cs)
  from Cons.prems have np: "\<not> prefix ''*.'' (c # cs)"
    by (meson prefix_imp_sublist)
  from Cons.prems have "\<not> sublist ''*.'' cs"
    by (meson sublist_Cons_right)
  with Cons.IH have "replace ''*.'' [] cs = cs" by simp
  with np show ?case by auto
qed

lemma replace_wild_leading:
  assumes "prefix ''*.'' s" and "\<not> sublist ''*.'' (drop 2 s)"
  shows "replace ''*.'' [] s = drop 2 s"
proof -
  from assms(1) obtain t where s: "s = CHR ''*'' # CHR ''.'' # t"
    by (auto simp: prefix_def)
  have "replace ''*.'' [] s = replace ''*.'' [] t"
    unfolding s by simp
  also have "\<dots> = t" using assms(2) by (simp add: s replace_wild_absent)
  finally show ?thesis by (simp add: s)
qed

lemma replace_wild_is_strip_leading:
  assumes "\<not> sublist ''*.'' (strip_leading_wildcard s)"
  shows "replace ''*.'' [] s = strip_leading_wildcard s"
  using assms
  by (auto simp: strip_leading_wildcard_def replace_wild_leading replace_wild_absent)

lemma strip_leading_wildcard_suffix: "suffix (strip_leading_wildcard s) s"
  by (simp add: strip_leading_wildcard_def suffix_drop)

text \<open>
  Claim C6, as the code has it. The code removes every occurrence of \<open>*.\<close>, not only a
  leading label, and it tests \<open>domain in subdomain\<close> before the removal. On every raw
  name whose trimmed, lowercased form has no \<open>*.\<close> other than a leading label, this is
  the normalisation of the specification: trim, lowercase, strip the leading wildcard
  label, and accept exactly when the result ends with \<open>.\<close> followed by the domain.
\<close>

theorem clean_subdomain_agrees_with_spec:
  assumes "\<not> sublist ''*.'' (strip_leading_wildcard (lower (strip raw)))"
  shows "clean_subdomain domain raw = spec_normalize domain raw"
proof -
  define s where "s = lower (strip raw)"
  define h where "h = strip_leading_wildcard s"
  have r: "replace ''*.'' [] s = h"
    using assms unfolding s_def h_def by (rule replace_wild_is_strip_leading)
  have guard: "s \<noteq> [] \<and> sublist domain s" if "suffix (''.'' @ domain) h"
  proof -
    have "suffix (''.'' @ domain) s"
      using that strip_leading_wildcard_suffix [of s] unfolding h_def
      by (meson suffix_order.trans)
    then obtain p where "s = p @ ''.'' @ domain" by (auto simp: suffix_def)
    then show ?thesis by (auto simp: sublist_def intro: exI [of _ "p @ ''.''"])
  qed
  show ?thesis
    using guard r
    by (auto simp: clean_subdomain_def spec_normalize_def Let_def s_def [symmetric] h_def [symmetric])
qed

text \<open>
  The two examples of the specification: \<open>*.Foo.Example.com\<close> under \<open>example.com\<close> is
  accepted as \<open>foo.example.com\<close>, and the bare domain is rejected.
\<close>

theorem clean_subdomain_agrees_with_spec_witness:
  "\<not> sublist ''*.'' (strip_leading_wildcard (lower (strip ''*.Foo.Example.com'')))
   \<and> \<not> sublist ''*.'' (strip_leading_wildcard (lower (strip ''example.com'')))
   \<and> clean_subdomain ''example.com'' ''*.Foo.Example.com'' = Some ''foo.example.com''
   \<and> clean_subdomain ''example.com'' ''example.com'' = None"
proof -
  have a: "\<not> sublist ''*.'' (strip_leading_wildcard (lower (strip ''*.Foo.Example.com'')))"
    by code_simp
  have b: "\<not> sublist ''*.'' (strip_leading_wildcard (lower (strip ''example.com'')))"
    by code_simp
  have c: "spec_normalize ''example.com'' ''*.Foo.Example.com'' = Some ''foo.example.com''"
    by code_simp
  have d: "spec_normalize ''example.com'' ''example.com'' = None"
    by code_simp
  show ?thesis
    using a b c d
      clean_subdomain_agrees_with_spec [OF a, of "''example.com''"]
      clean_subdomain_agrees_with_spec [OF b, of "''example.com''"]
    by simp
qed

text \<open>
  The claim as stated fails on a wildcard that is not a leading label: \<open>a*.example.com\<close>
  ends with \<open>.example.com\<close> and has no leading wildcard label, so the specification
  accepts it unchanged; the code removes \<open>*.\<close>, is left with \<open>aexample.com\<close>, and
  rejects it.
\<close>

theorem clean_subdomain_inner_wildcard_counterexample:
  "spec_normalize ''example.com'' ''a*.example.com'' = Some ''a*.example.com''
   \<and> clean_subdomain ''example.com'' ''a*.example.com'' = None"
  by code_simp

section \<open>The earliest timestamp of a hostname\<close>

text \<open>
  Claim C5 at a failing input. The same hostname comes in two entries, the first
  without a timestamp, the second with one. The first entry stores the empty string;
  the test \<open>entry_time < subdomains[subdomain]\<close> of the second entry compares with the
  empty string and is false, so the hostname keeps no date. With the entries in the
  other order it keeps \<open>2024-01-01T00:00:00\<close>.
\<close>

theorem earliest_timestamp_depends_on_entry_order:
  "fst (get_subdomains_from_crtsh2
          (quiet_world\<lparr>crtsh := Response 200 (Json
             [names_entry ''a.example.com'' None,
              names_entry ''a.example.com'' (Some ''2024-01-01T00:00:00'')])\<rparr>)
          ''example.com'' empty_store)
     = Inr [(''a.example.com'', [])]
   \<and> fst (get_subdomains_from_crtsh2
          (quiet_world\<lparr>crtsh := Response 200 (Json
             [names_entry ''a.example.com'' (Some ''2024-01-01T00:00:00''),
              names_entry ''a.example.com'' None])\<rparr>)
          ''example.com'' empty_store)
     = Inr [(''a.example.com'', ''2024-01-01T00:00:00'')]"
  by code_simp

section \<open>Initialisation of subdomain_monitor.py on a fresh database\<close>

text \<open>
  Claim C10. With no table \<open>subdomains\<close> the column probe lists no column, so \<open>domain\<close>
  is not among them and the migration branch runs; its \<open>SELECT\<close> on the missing table
  raises \<open>OperationalError\<close>, the call raises it, and no table has been created.
\<close>

theorem init_database1_fresh_database_raises:
  "table_info None = []
   \<and> select_old_data None = Inl OperationalError
   \<and> init_database1 now doms None = (Inl OperationalError, None)"
  by (simp add: init_database1_def table_info_def select_old_data_def)

section \<open>The record operation of the store\<close>

lemma touch_row_keys [simp]:
  "row_domain (touch_row now d s r) = row_domain r"
  "row_subdomain (touch_row now d s r) = row_subdomain r"
  "forget_last_seen (touch_row now d s r) = forget_last_seen r"
  by (simp_all add: touch_row_def forget_last_seen_def)

lemma pair_exists_touch [simp]:
  "pair_exists (t\<lparr>tbl_rows := map (touch_row now d s) (tbl_rows t)\<rparr>) d' s' = pair_exists t d' s'"
  by (simp add: pair_exists_def)

lemma pair_exists_append:
  "pair_exists (t\<lparr>tbl_rows := tbl_rows t @ [r], tbl_seq := n\<rparr>) d' s'
     = (pair_exists t d' s' \<or> (row_domain r = Some d' \<and> row_subdomain r = Some s'))"
  by (auto simp: pair_exists_def)

lemma has_columns_cong: "tbl_columns t' = tbl_columns t \<Longrightarrow> has_columns t' cs = has_columns t cs"
  by (simp add: has_columns_def)

lemma save_row_existing:
  assumes "has_columns t named" "has_columns t [''last_seen'', ''domain'', ''subdomain'']"
    and "pair_exists t d s"
  shows "save_row now named d s rel (Some t)
           = Inr (Some (t\<lparr>tbl_rows := map (touch_row now d s) (tbl_rows t)\<rparr>))"
  using assms by (simp add: save_row_def execute_insert_def execute_update_last_seen_def)

lemma save_row_fresh:
  assumes "has_columns t named" and "\<not> pair_exists t d s"
  shows "save_row now named d s rel (Some t)
           = Inr (Some (t\<lparr>tbl_rows := tbl_rows t @
                [\<lparr>row_id = next_id t, row_domain = Some d, row_subdomain = Some s,
                  row_first_seen = default_now t named ''first_seen'' now None,
                  row_last_seen = default_now t named ''last_seen'' now None,
                  row_release_date = (if ''release_date'' \<in> set named then rel else None)\<rparr>],
              tbl_seq := next_id t\<rparr>))"
  using assms by (simp add: save_row_def execute_insert_def)

lemma unique_pairs_touch:
  "unique_pairs (t\<lparr>tbl_rows := map (touch_row now d s) (tbl_rows t)\<rparr>) = unique_pairs t"
  by (simp add: unique_pairs_def comp_def)

lemma unique_pairs_append:
  assumes "unique_pairs t" "\<not> pair_exists t d s" "row_domain r = Some d" "row_subdomain r = Some s"
  shows "unique_pairs (t\<lparr>tbl_rows := tbl_rows t @ [r], tbl_seq := n\<rparr>)"
  using assms by (auto simp: unique_pairs_def pair_exists_def)

lemma filter_key_distinct:
  "distinct (map f xs) \<Longrightarrow> length (filter (\<lambda>x. f x = k) xs) = (if k \<in> f ` set xs then 1 else 0)"
  by (induction xs) auto

lemma pair_count_unique:
  assumes "unique_pairs t" "pair_exists t d s"
  shows "pair_count t d s = 1"
proof -
  define key where "key = (\<lambda>r::row. (row_domain r, row_subdomain r))"
  have eq: "(\<lambda>r. row_domain r = Some d \<and> row_subdomain r = Some s) = (\<lambda>r. key r = (Some d, Some s))"
    by (auto simp: key_def)
  from assms(2) obtain r where r: "r \<in> set (tbl_rows t)" "key r = (Some d, Some s)"
    by (auto simp: pair_exists_def key_def)
  then have "(Some d, Some s) \<in> key ` set (tbl_rows t)"
    by (metis image_eqI)
  moreover have "distinct (map key (tbl_rows t))"
    using assms(1) by (simp add: unique_pairs_def key_def)
  ultimately have "length (filter (\<lambda>x. key x = (Some d, Some s)) (tbl_rows t)) = 1"
    using filter_key_distinct [of key "tbl_rows t" "(Some d, Some s)"] by simp
  then show ?thesis
    unfolding pair_count_def eq .
qed

text \<open>One record operation on a table of the schema: what it returns and what it leaves.\<close>

lemma save_row_step:
  assumes cols: "has_columns t named" "has_columns t [''last_seen'', ''domain'', ''subdomain'']"
  shows "\<exists>t'. save_row now named d s rel (Some t) = Inr (Some t')
            \<and> tbl_columns t' = tbl_columns t
            \<and> stored (Some t') = insert (d, s) (stored (Some t))
            \<and> (unique_pairs t \<longrightarrow> unique_pairs t')
            \<and> length (tbl_rows t) \<le> length (tbl_rows t')
            \<and> map forget_last_seen (take (length (tbl_rows t)) (tbl_rows t'))
                = map forget_last_seen (tbl_rows t)"
proof (cases "pair_exists t d s")
  case True
  let ?t' = "t\<lparr>tbl_rows := map (touch_row now d s) (tbl_rows t)\<rparr>"
  have "save_row now named d s rel (Some t) = Inr (Some ?t')"
    using cols True by (rule save_row_existing)
  moreover have "stored (Some ?t') = insert (d, s) (stored (Some t))"
    using True by (auto simp: stored_def)
  moreover have "unique_pairs ?t' = unique_pairs t" by (rule unique_pairs_touch)
  moreover have "map forget_last_seen (take (length (tbl_rows t)) (tbl_rows ?t'))
                = map forget_last_seen (tbl_rows t)"
    by (simp add: comp_def)
  ultimately show ?thesis by (intro exI [of _ ?t']) simp
next
  case False
  define r where "r = \<lparr>row_id = next_id t, row_domain = Some d, row_subdomain = Some s,
                  row_first_seen = default_now t named ''first_seen'' now None,
                  row_last_seen = default_now t named ''last_seen'' now None,
                  row_release_date = (if ''release_date'' \<in> set named then rel else None)\<rparr>"
  let ?t' = "t\<lparr>tbl_rows := tbl_rows t @ [r], tbl_seq := next_id t\<rparr>"
  have rk: "row_domain r = Some d" "row_subdomain r = Some s" by (simp_all add: r_def)
  have "save_row now named d s rel (Some t) = Inr (Some ?t')"
    using save_row_fresh [OF cols(1) False, of now rel] by (simp add: r_def)
  moreover have "stored (Some ?t') = insert (d, s) (stored (Some t))"
    by (auto simp: stored_def pair_exists_append rk)
  moreover have "unique_pairs t \<longrightarrow> unique_pairs ?t'"
    using unique_pairs_append [OF _ False rk] by simp
  ultimately show ?thesis by (intro exI [of _ ?t']) simp
qed

lemma save_rows_ok:
  assumes "has_columns t named" "has_columns t [''last_seen'', ''domain'', ''subdomain'']"
  shows "\<exists>t'. save_rows now named d rel new (Some t) = Inr (Some t')
            \<and> tbl_columns t' = tbl_columns t
            \<and> stored (Some t') = stored (Some t) \<union> {d} \<times> set new
            \<and> (unique_pairs t \<longrightarrow> unique_pairs t')
            \<and> length (tbl_rows t) \<le> length (tbl_rows t')
            \<and> map forget_last_seen (take (length (tbl_rows t)) (tbl_rows t'))
                = map forget_last_seen (tbl_rows t)"
  using assms
proof (induction new arbitrary: t)
  case Nil
  then show ?case by simp
next
  case (Cons s new)
  from save_row_step [OF Cons.prems, of now d s "rel s"]
  obtain t1 where t1: "save_row now named d s (rel s) (Some t) = Inr (Some t1)"
      "tbl_columns t1 = tbl_columns t"
      "stored (Some t1) = insert (d, s) (stored (Some t))"
      "unique_pairs t \<longrightarrow> unique_pairs t1"
      "length (tbl_rows t) \<le> length (tbl_rows t1)"
      "map forget_last_seen (take (length (tbl_rows t)) (tbl_rows t1)) = map forget_last_seen (tbl_rows t)"
    by blast
  have c1: "has_columns t1 named" "has_columns t1 [''last_seen'', ''domain'', ''subdomain'']"
    using Cons.prems t1(2) by (simp_all add: has_columns_def)
  from Cons.IH [OF c1]
  obtain t2 where t2: "save_rows now named d rel new (Some t1) = Inr (Some t2)"
      "tbl_columns t2 = tbl_columns t1"
      "stored (Some t2) = stored (Some t1) \<union> {d} \<times> set new"
      "unique_pairs t1 \<longrightarrow> unique_pairs t2"
      "length (tbl_rows t1) \<le> length (tbl_rows t2)"
      "map forget_last_seen (take (length (tbl_rows t1)) (tbl_rows t2)) = map forget_last_seen (tbl_rows t1)"
    by blast
  have pre: "map forget_last_seen (take (length (tbl_rows t)) (tbl_rows t2)) = map forget_last_seen (tbl_rows t)"
  proof -
    have "take (length (tbl_rows t)) (tbl_rows t2)
            = take (length (tbl_rows t)) (take (length (tbl_rows t1)) (tbl_rows t2))"
      using t1(5) by (simp add: min_def)
    then have "map forget_last_seen (take (length (tbl_rows t)) (tbl_rows t2))
            = take (length (tbl_rows t)) (map forget_last_seen (take (length (tbl_rows t1)) (tbl_rows t2)))"
      by (simp add: take_map)
    also have "\<dots> = take (length (tbl_rows t)) (map forget_last_seen (tbl_rows t1))"
      by (simp add: t2(6))
    also have "\<dots> = map forget_last_seen (take (length (tbl_rows t)) (tbl_rows t1))"
      by (simp add: take_map)
    finally show ?thesis by (simp add: t1(6))
  qed
  show ?case
    using t1 t2 pre by (intro exI [of _ t2]) auto
qed

lemma one_row_table_ok:
  "has_columns one_row_table [''domain'', ''subdomain'', ''release_date'']"
  "has_columns one_row_table [''last_seen'', ''domain'', ''subdomain'']"
  "unique_pairs one_row_table"
  by (simp_all add: has_columns_def one_row_table_def schema2_def unique_pairs_def)

lemma touch_row_explicit:
  "touch_row now d s
     = (\<lambda>r. if row_domain r = Some d \<and> row_subdomain r = Some s
             then r\<lparr>row_last_seen := Some now\<rparr> else r)"
  by (rule ext) (simp add: touch_row_def)

lemma one_row_table_saves:
  "save_row ''2024-03-01 00:00:00'' [''domain'', ''subdomain'', ''release_date'']
     ''example.com'' ''api.example.com'' None (Some one_row_table)
   = Inr (Some \<lparr>tbl_columns = schema2,
      tbl_rows = [\<lparr>row_id = 1, row_domain = Some ''example.com'',
                  row_subdomain = Some ''api.example.com'',
                  row_first_seen = Some ''2024-02-01 00:00:00'',
                  row_last_seen = Some ''2024-03-01 00:00:00'',
                  row_release_date = None\<rparr>],
      tbl_seq = 1\<rparr>)"
  "save_row ''2024-03-01 00:00:00'' [''domain'', ''subdomain'', ''release_date'']
     ''example.com'' ''www.example.com'' (Some ''2024-01-15T00:00:00'') (Some one_row_table)
   = Inr (Some \<lparr>tbl_columns = schema2,
      tbl_rows = [\<lparr>row_id = 1, row_domain = Some ''example.com'',
                  row_subdomain = Some ''api.example.com'',
                  row_first_seen = Some ''2024-02-01 00:00:00'',
                  row_last_seen = Some ''2024-02-01 00:00:00'',
                  row_release_date = None\<rparr>,
                 \<lparr>row_id = 2, row_domain = Some ''example.com'',
                  row_subdomain = Some ''www.example.com'',
                  row_first_seen = Some ''2024-03-01 00:00:00'',
                  row_last_seen = Some ''2024-03-01 00:00:00'',
                  row_release_date = Some ''2024-01-15T00:00:00''\<rparr>],
      tbl_seq = 2\<rparr>)"
  by code_simp+

text \<open>
  Claim C3. On a table that has the columns of the statements and satisfies
  \<open>UNIQUE(domain, subdomain)\<close>, the record operation (\<open>INSERT\<close>, and on
  \<open>IntegrityError\<close> the \<open>UPDATE\<close>) returns normally. When the pair has no row it
  appends one row for it, whose \<open>first_seen\<close> and \<open>last_seen\<close> take the current
  timestamp as their default; when it has a row, the rows are the old ones, with
  \<open>last_seen\<close> of the rows of that pair set to the current timestamp and nothing
  else changed. In both cases the old rows are changed in \<open>last_seen\<close> at most,
  the pair has exactly one row afterwards and the invariant holds. A second call
  for the same pair, at a later timestamp, returns normally too, sets \<open>last_seen\<close>
  of the pair to that timestamp, changes nothing else, and leaves one row for the
  pair. The whole loop of \<open>save_new_subdomains\<close> returns normally and keeps the
  invariant.
\<close>

theorem record_new_inserts_or_touches:
  assumes "has_columns t named"
    and "has_columns t [''last_seen'', ''domain'', ''subdomain'']"
    and "unique_pairs t"
  shows "\<exists>t' t'' t3 rid.
           save_row now named d s rel (Some t) = Inr (Some t')
         \<and> (if pair_exists t d s
            then tbl_rows t'
                   = map (\<lambda>r. if row_domain r = Some d \<and> row_subdomain r = Some s
                               then r\<lparr>row_last_seen := Some now\<rparr> else r)
                       (tbl_rows t)
            else tbl_rows t'
                   = tbl_rows t @
                     [\<lparr>row_id = rid, row_domain = Some d, row_subdomain = Some s,
                       row_first_seen =
                         (if ''first_seen'' \<in> set named then None
                          else if ''first_seen'' \<in> set (tbl_columns t) then Some now else None),
                       row_last_seen = (if ''last_seen'' \<in> set named then None else Some now),
                       row_release_date = (if ''release_date'' \<in> set named then rel else None)\<rparr>])
         \<and> tbl_columns t' = tbl_columns t
         \<and> map forget_last_seen (take (length (tbl_rows t)) (tbl_rows t'))
              = map forget_last_seen (tbl_rows t)
         \<and> unique_pairs t' \<and> pair_count t' d s = 1
         \<and> save_row now' named d s rel' (Some t') = Inr (Some t'')
         \<and> tbl_rows t''
              = map (\<lambda>r. if row_domain r = Some d \<and> row_subdomain r = Some s
                          then r\<lparr>row_last_seen := Some now'\<rparr> else r)
                  (tbl_rows t')
         \<and> tbl_columns t'' = tbl_columns t'
         \<and> map forget_last_seen (tbl_rows t'') = map forget_last_seen (tbl_rows t')
         \<and> unique_pairs t'' \<and> pair_count t'' d s = 1
         \<and> save_rows now named d relf new (Some t) = Inr (Some t3)
         \<and> unique_pairs t3"
proof -
  have ls: "''last_seen'' \<in> set (tbl_columns t)"
    using assms(2) by (simp add: has_columns_def)
  from save_row_step [OF assms(1,2), of now d s rel]
  obtain t' where t': "save_row now named d s rel (Some t) = Inr (Some t')"
      "tbl_columns t' = tbl_columns t"
      "stored (Some t') = insert (d, s) (stored (Some t))"
      "unique_pairs t'"
      "map forget_last_seen (take (length (tbl_rows t)) (tbl_rows t')) = map forget_last_seen (tbl_rows t)"
    using assms(3) by blast
  define rid where "rid = next_id t"
  have shape: "if pair_exists t d s
            then tbl_rows t'
                   = map (\<lambda>r. if row_domain r = Some d \<and> row_subdomain r = Some s
                               then r\<lparr>row_last_seen := Some now\<rparr> else r)
                       (tbl_rows t)
            else tbl_rows t'
                   = tbl_rows t @
                     [\<lparr>row_id = rid, row_domain = Some d, row_subdomain = Some s,
                       row_first_seen =
                         (if ''first_seen'' \<in> set named then None
                          else if ''first_seen'' \<in> set (tbl_columns t) then Some now else None),
                       row_last_seen = (if ''last_seen'' \<in> set named then None else Some now),
                       row_release_date = (if ''release_date'' \<in> set named then rel else None)\<rparr>]"
  proof (cases "pair_exists t d s")
    case True
    from t'(1) save_row_existing [OF assms(1,2) True, of now rel]
    have "t' = t\<lparr>tbl_rows := map (touch_row now d s) (tbl_rows t)\<rparr>" by simp
    hence "tbl_rows t' = map (touch_row now d s) (tbl_rows t)" by simp
    with True show ?thesis by (simp add: touch_row_explicit)
  next
    case False
    from t'(1) save_row_fresh [OF assms(1) False, of now rel]
    have "t' = t\<lparr>tbl_rows := tbl_rows t @
                [\<lparr>row_id = next_id t, row_domain = Some d, row_subdomain = Some s,
                  row_first_seen = default_now t named ''first_seen'' now None,
                  row_last_seen = default_now t named ''last_seen'' now None,
                  row_release_date = (if ''release_date'' \<in> set named then rel else None)\<rparr>],
              tbl_seq := next_id t\<rparr>" by simp
    hence "tbl_rows t' = tbl_rows t @
                [\<lparr>row_id = next_id t, row_domain = Some d, row_subdomain = Some s,
                  row_first_seen = default_now t named ''first_seen'' now None,
                  row_last_seen = default_now t named ''last_seen'' now None,
                  row_release_date = (if ''release_date'' \<in> set named then rel else None)\<rparr>]"
      by simp
    with False ls show ?thesis
      by (simp add: default_now_def rid_def)
  qed
  have ex': "pair_exists t' d s"
    using t'(3) by (auto simp: stored_def)
  have c': "has_columns t' named" "has_columns t' [''last_seen'', ''domain'', ''subdomain'']"
    using assms(1,2) t'(2) by (simp_all add: has_columns_def)
  define t'' where "t'' = t'\<lparr>tbl_rows := map (touch_row now' d s) (tbl_rows t')\<rparr>"
  have t'': "save_row now' named d s rel' (Some t') = Inr (Some t'')"
    unfolding t''_def using c' ex' by (rule save_row_existing)
  have u'': "unique_pairs t''"
    unfolding t''_def using t'(4) by (simp add: unique_pairs_touch)
  have ex'': "pair_exists t'' d s"
    unfolding t''_def using ex' by simp
  have rows'': "tbl_rows t''
              = map (\<lambda>r. if row_domain r = Some d \<and> row_subdomain r = Some s
                          then r\<lparr>row_last_seen := Some now'\<rparr> else r)
                  (tbl_rows t')"
    by (simp add: t''_def touch_row_explicit)
  have cols'': "tbl_columns t'' = tbl_columns t'" by (simp add: t''_def)
  from save_rows_ok [OF assms(1,2), of now d relf new]
  obtain t3 where t3: "save_rows now named d relf new (Some t) = Inr (Some t3)" "unique_pairs t3"
    using assms(3) by blast
  have keep'': "map forget_last_seen (tbl_rows t'') = map forget_last_seen (tbl_rows t')"
    by (simp add: t''_def comp_def)
  show ?thesis
    using t'(1,2,5,4) shape t'' rows'' cols'' keep'' u'' t3
      pair_count_unique [OF t'(4) ex'] pair_count_unique [OF u'' ex'']
    by (intro exI [of _ t'] exI [of _ t''] exI [of _ t3] exI [of _ rid] conjI)
qed

theorem record_new_inserts_or_touches_witness:
  "has_columns one_row_table [''domain'', ''subdomain'', ''release_date'']
   \<and> has_columns one_row_table [''last_seen'', ''domain'', ''subdomain'']
   \<and> unique_pairs one_row_table
   \<and> (\<exists>t' t''.
         save_row ''2024-03-01 00:00:00'' [''domain'', ''subdomain'', ''release_date'']
           ''example.com'' ''www.example.com'' None (Some one_row_table) = Inr (Some t')
       \<and> pair_count t' ''example.com'' ''www.example.com'' = 1
       \<and> save_row ''2024-03-02 00:00:00'' [''domain'', ''subdomain'', ''release_date'']
           ''example.com'' ''www.example.com'' None (Some t') = Inr (Some t'')
       \<and> tbl_rows t''
              = map (\<lambda>r. if row_domain r = Some ''example.com''
                               \<and> row_subdomain r = Some ''www.example.com''
                          then r\<lparr>row_last_seen := Some ''2024-03-02 00:00:00''\<rparr> else r)
                  (tbl_rows t')
       \<and> pair_count t'' ''example.com'' ''www.example.com'' = 1)
   \<and> save_row ''2024-03-01 00:00:00'' [''domain'', ''subdomain'', ''release_date'']
       ''example.com'' ''api.example.com'' None (Some one_row_table)
     = Inr (Some \<lparr>tbl_columns = schema2,
        tbl_rows = [\<lparr>row_id = 1, row_domain = Some ''example.com'',
                    row_subdomain = Some ''api.example.com'',
                    row_first_seen = Some ''2024-02-01 00:00:00'',
                    row_last_seen = Some ''2024-03-01 00:00:00'',
                    row_release_date = None\<rparr>],
        tbl_seq = 1\<rparr>)
   \<and> save_row ''2024-03-01 00:00:00'' [''domain'', ''subdomain'', ''release_date'']
       ''example.com'' ''www.example.com'' (Some ''2024-01-15T00:00:00'') (Some one_row_table)
     = Inr (Some \<lparr>tbl_columns = schema2,
        tbl_rows = [\<lparr>row_id = 1, row_domain = Some ''example.com'',
                    row_subdomain = Some ''api.example.com'',
                    row_first_seen = Some ''2024-02-01 00:00:00'',
                    row_last_seen = Some ''2024-02-01 00:00:00'',
                    row_release_date = None\<rparr>,
                   \<lparr>row_id = 2, row_domain = Some ''example.com'',
                    row_subdomain = Some ''www.example.com'',
                    row_first_seen = Some ''2024-03-01 00:00:00'',
                    row_last_seen = Some ''2024-03-01 00:00:00'',
                    row_release_date = Some ''2024-01-15T00:00:00''\<rparr>],
        tbl_seq = 2\<rparr>)"
proof -
  from record_new_inserts_or_touches [OF one_row_table_ok,
      of "''2024-03-01 00:00:00''" "''example.com''" "''www.example.com''" None
         "''2024-03-02 00:00:00''" None "\<lambda>s. None" "[]"]
  obtain t' t'' where
    c: "save_row ''2024-03-01 00:00:00'' [''domain'', ''subdomain'', ''release_date'']
           ''example.com'' ''www.example.com'' None (Some one_row_table) = Inr (Some t')"
       "pair_count t' ''example.com'' ''www.example.com'' = 1"
       "save_row ''2024-03-02 00:00:00'' [''domain'', ''subdomain'', ''release_date'']
           ''example.com'' ''www.example.com'' None (Some t') = Inr (Some t'')"
       "tbl_rows t''
              = map (\<lambda>r. if row_domain r = Some ''example.com''
                               \<and> row_subdomain r = Some ''www.example.com''
                          then r\<lparr>row_last_seen := Some ''2024-03-02 00:00:00''\<rparr> else r)
                  (tbl_rows t')"
       "pair_count t'' ''example.com'' ''www.example.com'' = 1"
    by (elim exE conjE) (rule that, assumption+)
  have ex: "\<exists>t' t''.
         save_row ''2024-03-01 00:00:00'' [''domain'', ''subdomain'', ''release_date'']
           ''example.com'' ''www.example.com'' None (Some one_row_table) = Inr (Some t')
       \<and> pair_count t' ''example.com'' ''www.example.com'' = 1
       \<and> save_row ''2024-03-02 00:00:00'' [''domain'', ''subdomain'', ''release_date'']
           ''example.com'' ''www.example.com'' None (Some t') = Inr (Some t'')
       \<and> tbl_rows t''
              = map (\<lambda>r. if row_domain r = Some ''example.com''
                               \<and> row_subdomain r = Some ''www.example.com''
                          then r\<lparr>row_last_seen := Some ''2024-03-02 00:00:00''\<rparr> else r)
                  (tbl_rows t')
       \<and> pair_count t'' ''example.com'' ''www.example.com'' = 1"
    using c by (intro exI [of _ t'] exI [of _ t''] conjI)
  show ?thesis
    by (intro conjI one_row_table_ok ex one_row_table_saves)
qed

section \<open>The order of an alert\<close>

lemma posts_append [simp]: "posts (xs @ ys) = posts xs @ posts ys"
  by (induction xs rule: posts.induct) simp_all

lemma commits_append [simp]: "commits (xs @ ys) = commits xs @ commits ys"
  by (induction xs rule: commits.induct) simp_all

lemma deliver_effect:
  "\<exists>logged. snd (deliver sk outcome a st) = st\<lparr>trace := trace st @ HttpPost sk a # logged\<rparr>
             \<and> posts logged = [] \<and> commits logged = []"
proof (cases "post_result outcome")
  case (Inr u)
  then show ?thesis
    by (intro exI [of _ "[]"]) (simp add: deliver_def emit_def)
next
  case (Inl e)
  then show ?thesis
    by (intro exI [of _ "if is_RequestException e then [ErrorLogged (Alert sk) (alert_domain a) e] else []"])
       (simp add: deliver_def emit_def Let_def)
qed


















section \<open>The shape of a cycle\<close>

lemma emit_simps [simp]:
  "db (emit e st) = db st" "trace (emit e st) = trace st @ [e]"
  by (simp_all add: emit_def)

text \<open>What each step of a cycle does to the state.\<close>

lemma fetch2_effect:
  assumes "get_subdomains_from_crtsh2 w domain st = (r, st1)"
  shows "db st1 = db st \<and> (\<exists>lg. trace st1 = trace st @ lg \<and> posts lg = [] \<and> commits lg = [])"
proof (cases "fetch_json (crtsh w)")
  case (Inr data)
  with assms show ?thesis by (auto simp: get_subdomains_from_crtsh2_def)
next
  case (Inl e)
  with assms have "st1 = st \<or> st1 = emit (ErrorLogged Crtsh domain e) st"
    by (auto simp: get_subdomains_from_crtsh2_def split: if_splits)
  then show ?thesis
  proof
    assume "st1 = st" then show ?thesis by simp
  next
    assume "st1 = emit (ErrorLogged Crtsh domain e) st"
    then show ?thesis by (intro conjI exI [of _ "[ErrorLogged Crtsh domain e]"]) simp_all
  qed
qed

lemma fetch2_result:
  assumes "get_subdomains_from_crtsh2 w domain st = (Inr crtsh_subdomains, st1)"
  shows "set (map fst crtsh_subdomains) = fetched2 w domain"
    and "crtsh_subdomains \<noteq> [] \<Longrightarrow> st1 = st"
  using assms
  by (auto simp: get_subdomains_from_crtsh2_def fetched2_def split: sum.splits if_splits)

lemma select_subdomains_set:
  assumes "select_subdomains domain d = Inr known"
  shows "set known = known_set domain d"
proof -
  from assms obtain t where t: "d = Some t"
      "known = List.map_filter (\<lambda>r. if row_domain r = Some domain then row_subdomain r else None) (tbl_rows t)"
    by (auto simp: select_subdomains_def split: option.splits if_splits)
  have "set (List.map_filter f xs) = {y. \<exists>x \<in> set xs. f x = Some y}" for f :: "row \<Rightarrow> string option" and xs
    by (induction xs) (auto split: option.splits)
  then show ?thesis
    unfolding t known_set_def stored_def pair_exists_def
    by (auto split: if_splits)
qed

lemma get_known_set:
  "get_known_subdomains w domain d = Inr known \<Longrightarrow> set known = known_set domain d"
  by (auto simp: get_known_subdomains_def select_subdomains_set split: option.splits)

lemma set_difference_set [simp]:
  "set (set_difference w current known) = set current - set known"
  "distinct (set_difference w current known)"
  by (auto simp: set_difference_def set_iter_def)

lemma save_row_stored:
  assumes "save_row now named dm s rel d = Inr d'"
  shows "stored d' = insert (dm, s) (stored d)"
proof (cases d)
  case None
  with assms show ?thesis by (simp add: save_row_def execute_insert_def)
next
  case (Some t)
  show ?thesis
  proof (cases "has_columns t named")
    case False
    with assms Some show ?thesis by (simp add: save_row_def execute_insert_def)
  next
    case cols: True
    show ?thesis
    proof (cases "pair_exists t dm s")
      case True
      with assms Some cols
      have "d' = Some (t\<lparr>tbl_rows := map (touch_row now dm s) (tbl_rows t)\<rparr>)"
        by (auto simp: save_row_def execute_insert_def execute_update_last_seen_def split: if_splits)
      with True Some show ?thesis by (auto simp: stored_def)
    next
      case False
      from assms save_row_fresh [OF cols False, of now rel] Some
      obtain r n where "d' = Some (t\<lparr>tbl_rows := tbl_rows t @ [r], tbl_seq := n\<rparr>)"
          "row_domain r = Some dm" "row_subdomain r = Some s"
        by auto
      then show ?thesis using Some by (auto simp: stored_def pair_exists_append)
    qed
  qed
qed

lemma save_rows_stored:
  "save_rows now named dm rel new d = Inr d' \<Longrightarrow> stored d' = stored d \<union> {dm} \<times> set new"
proof (induction new arbitrary: d)
  case Nil
  then show ?case by simp
next
  case (Cons s new)
  from Cons.prems obtain d1 where d1: "save_row now named dm s (rel s) d = Inr d1"
      "save_rows now named dm rel new d1 = Inr d'"
    by (auto split: sum.splits)
  from Cons.IH [OF d1(2)] save_row_stored [OF d1(1)] show ?case by auto
qed

lemma save2_effect:
  assumes "save_new_subdomains2 w domain new dates st = (r, st2)"
  shows "case r of
           Inl e \<Rightarrow> st2 = st
         | Inr u \<Rightarrow>
             if new = [] then st2 = st
             else trace st2 = trace st @ [Committed domain new]
                  \<and> stored (db st2) = stored (db st) \<union> {domain} \<times> set new"
  using assms
  by (auto simp: save_new_subdomains2_def save_rows_stored split: if_splits option.splits sum.splits)

lemma save1_effect:
  assumes "save_new_subdomains1 w domain new st = (r, st2)"
  shows "case r of
           Inl e \<Rightarrow> st2 = st
         | Inr u \<Rightarrow>
             if new = [] then st2 = st
             else trace st2 = trace st @ [Committed domain new]
                  \<and> stored (db st2) = stored (db st) \<union> {domain} \<times> set new"
  using assms
  by (auto simp: save_new_subdomains1_def save_rows_stored split: if_splits option.splits sum.splits)

lemma sorted_subdomains2_mset:
  "sorted_subdomains2 w sk domain new dates d = Inr ordered \<Longrightarrow> mset ordered = mset new"
  by (auto simp: sorted_subdomains2_def split: if_splits sum.splits)

lemma deliver_db [simp]: "db (snd (deliver sk outcome a st)) = db st"
  using deliver_effect [of sk outcome a st] by auto

lemma alert_effect_refl: "alert_effect sk domain new st st"
  by (auto simp: alert_effect_def)

lemma deliver_alert_effect:
  assumes "alert_domain a = domain" "mset (alert_hosts a) = mset new"
  shows "alert_effect sk domain new st (snd (deliver sk outcome a st))"
proof -
  from deliver_effect [of sk outcome a st]
  obtain logged where l: "snd (deliver sk outcome a st) = st\<lparr>trace := trace st @ HttpPost sk a # logged\<rparr>"
      "posts logged = []" "commits logged = []"
    by blast
  show ?thesis
    unfolding alert_effect_def l(1)
    using l(2,3) assms
    by (intro conjI exI [of _ "HttpPost sk a # logged"]) auto
qed

lemma telegram2_effect:
  "alert_effect Telegram domain new st (snd (send_telegram_alert2 cfg w domain new dates st))"
proof (cases "falsy (telegram_bot_token cfg) \<or> falsy (telegram_chat_id cfg) \<or> new = []")
  case True
  then show ?thesis by (auto simp: send_telegram_alert2_def alert_effect_refl)
next
  case False
  show ?thesis
  proof (cases "sorted_subdomains2 w Telegram domain new dates (db st)")
    case (Inl e)
    with False show ?thesis by (simp add: send_telegram_alert2_def alert_effect_refl)
  next
    case (Inr ordered)
    with False sorted_subdomains2_mset [OF Inr] show ?thesis
      by (simp add: send_telegram_alert2_def deliver_alert_effect)
  qed
qed

lemma discord2_effect:
  "alert_effect Discord domain new st (snd (send_discord_alert2 cfg w domain new dates st))"
proof (cases "falsy (discord_webhook_url cfg) \<or> new = []")
  case True
  then show ?thesis by (auto simp: send_discord_alert2_def alert_effect_refl)
next
  case False
  show ?thesis
  proof (cases "sorted_subdomains2 w Discord domain new dates (db st)")
    case (Inl e)
    with False show ?thesis by (simp add: send_discord_alert2_def alert_effect_refl)
  next
    case (Inr ordered)
    with False sorted_subdomains2_mset [OF Inr] show ?thesis
      by (simp add: send_discord_alert2_def deliver_alert_effect)
  qed
qed

lemma telegram1_effect:
  "alert_effect Telegram domain new st (snd (send_telegram_alert1 cfg w domain new st))"
  by (simp add: send_telegram_alert1_def alert_effect_refl deliver_alert_effect)

lemma discord1_effect:
  "alert_effect Discord domain new st (snd (send_discord_alert1 cfg w domain new st))"
  by (simp add: send_discord_alert1_def alert_effect_refl deliver_alert_effect)

lemma cycle_events_commit_only:
  "cycle_events domain new [Committed domain new]"
  by (simp add: cycle_events_def)

lemma cycle_events_one_alert:
  assumes "alert_effect sk domain new st2 st3" "trace st2 = tr @ [Committed domain new]"
  shows "\<exists>evs. trace st3 = tr @ evs \<and> cycle_events domain new evs
               \<and> (\<forall>p \<in> set (posts evs). fst p = sk)"
proof -
  from assms(1) obtain ea where ea: "trace st3 = trace st2 @ ea" "commits ea = []"
      "posts ea = [] \<or> (\<exists>a. posts ea = [(sk, a)] \<and> alert_domain a = domain
                           \<and> mset (alert_hosts a) = mset new)"
    by (auto simp: alert_effect_def)
  have "cycle_events domain new (Committed domain new # ea)"
    unfolding cycle_events_def using ea(2,3)
    by (intro exI [of _ ea]) (auto simp: alert_lists_def)
  moreover have "\<forall>p \<in> set (posts (Committed domain new # ea)). fst p = sk"
    using ea(3) by auto
  ultimately show ?thesis
    using ea(1) assms(2) by (intro exI [of _ "Committed domain new # ea"]) simp
qed

lemma cycle_events_two_alerts:
  assumes "alert_effect Telegram domain new st2 st3" "alert_effect Discord domain new st3 st4"
    and "trace st2 = tr @ [Committed domain new]"
  shows "\<exists>evs. trace st4 = tr @ evs \<and> cycle_events domain new evs"
proof -
  from assms(1) obtain ea where ea: "trace st3 = trace st2 @ ea" "commits ea = []"
      "posts ea = [] \<or> (\<exists>a. posts ea = [(Telegram, a)] \<and> alert_domain a = domain
                           \<and> mset (alert_hosts a) = mset new)"
    by (auto simp: alert_effect_def)
  from assms(2) obtain eb where eb: "trace st4 = trace st3 @ eb" "commits eb = []"
      "posts eb = [] \<or> (\<exists>a. posts eb = [(Discord, a)] \<and> alert_domain a = domain
                           \<and> mset (alert_hosts a) = mset new)"
    by (auto simp: alert_effect_def)
  have "cycle_events domain new (Committed domain new # ea @ eb)"
    unfolding cycle_events_def using ea(2,3) eb(2,3)
    by (intro exI [of _ "ea @ eb"]) (auto simp: alert_lists_def)
  then show ?thesis
    using ea(1) eb(1) assms(3) by (intro exI [of _ "Committed domain new # ea @ eb"]) simp
qed

lemma cycle_shape_quiet:
  assumes "db st' = db st" "trace st' = trace st @ lg" "posts lg = []" "commits lg = []"
  shows "cycle_shape domain fetched st st'"
  using assms unfolding cycle_shape_def by blast

lemma monitor_body2_shape:
  "cycle_shape domain (fetched2 w domain) st (snd (monitor_body2 cfg w domain st))"
proof -
  obtain r0 st1 where f: "get_subdomains_from_crtsh2 w domain st = (r0, st1)"
    by (cases "get_subdomains_from_crtsh2 w domain st")
  from fetch2_effect [OF f] obtain lg where
    st1: "db st1 = db st" "trace st1 = trace st @ lg" "posts lg = []" "commits lg = []"
    by blast
  have quiet1: "cycle_shape domain (fetched2 w domain) st st1"
    using st1 by (rule cycle_shape_quiet)
  show ?thesis
  proof (cases r0)
    case (Inl e)
    then show ?thesis using f quiet1 by (simp add: monitor_body2_def)
  next
    case (Inr dict)
    note f' = f [unfolded Inr]
    show ?thesis
    proof (cases "get_known_subdomains w domain (db st1)")
      case (Inl e)
      then show ?thesis using f' quiet1 by (simp add: monitor_body2_def)
    next
      case (Inr known)
      define new where "new = set_difference w (map fst dict) known"
      have new_set: "set new = fetched2 w domain - known_set domain (db st)"
        using fetch2_result(1) [OF f'] get_known_set [OF Inr] st1(1)
        by (simp add: new_def)
      have new_dist: "distinct new" by (simp add: new_def)
      show ?thesis
      proof (cases "new = []")
        case True
        then show ?thesis
          using f' Inr quiet1 by (simp add: monitor_body2_def new_def Let_def)
      next
        case False
        then have "dict \<noteq> []" by (auto simp: new_def set_difference_def set_iter_def)
        from fetch2_result(2) [OF f' this] have eq: "st1 = st" .
        obtain r2 st2 where s: "save_new_subdomains2 w domain new dict st = (r2, st2)"
          by (cases "save_new_subdomains2 w domain new dict st")
        have body: "monitor_body2 cfg w domain st =
            (case (r2, st2) of
               (Inl e, st2) \<Rightarrow> (Inl e, st2)
             | (Inr u, st2) \<Rightarrow>
                 (case send_telegram_alert2 cfg w domain new dict st2 of
                    (Inl e, st3) \<Rightarrow> (Inl e, st3)
                  | (Inr u, st3) \<Rightarrow> send_discord_alert2 cfg w domain new dict st3))"
          using f' Inr False eq s by (simp add: monitor_body2_def new_def [symmetric] Let_def)
        show ?thesis
        proof (cases r2)
          case (Inl e)
          with save2_effect [OF s] have "st2 = st" by simp
          then show ?thesis
            using body Inl by (simp add: cycle_shape_quiet [where lg = "[]"])
        next
          case (Inr u)
          with save2_effect [OF s] False
          have st2: "trace st2 = trace st @ [Committed domain new]"
              "stored (db st2) = stored (db st) \<union> {domain} \<times> set new"
            by simp_all
          obtain r3 st3 where t: "send_telegram_alert2 cfg w domain new dict st2 = (r3, st3)"
            by (cases "send_telegram_alert2 cfg w domain new dict st2")
          have e3: "alert_effect Telegram domain new st2 st3"
            using telegram2_effect [of domain new st2 cfg w dict] t by simp
          have db3: "db st3 = db st2" using e3 by (simp add: alert_effect_def)
          show ?thesis
          proof (cases r3)
            case (Inl e)
            from cycle_events_one_alert [OF e3 st2(1)]
            obtain evs where "trace st3 = trace st @ evs" "cycle_events domain new evs"
              by blast
            then have "cycle_shape domain (fetched2 w domain) st st3"
              unfolding cycle_shape_def
              using False new_dist new_set st2(2) db3 by auto
            then show ?thesis using body Inr Inl t by simp
          next
            case r3: (Inr u3)
            obtain r4 st4 where d: "send_discord_alert2 cfg w domain new dict st3 = (r4, st4)"
              by (cases "send_discord_alert2 cfg w domain new dict st3")
            have e4: "alert_effect Discord domain new st3 st4"
              using discord2_effect [of domain new st3 cfg w dict] d by simp
            have db4: "db st4 = db st2" using e4 db3 by (simp add: alert_effect_def)
            from cycle_events_two_alerts [OF e3 e4 st2(1)]
            obtain evs where "trace st4 = trace st @ evs" "cycle_events domain new evs"
              by blast
            then have "cycle_shape domain (fetched2 w domain) st st4"
              unfolding cycle_shape_def
              using False new_dist new_set st2(2) db4 by auto
            then show ?thesis using body Inr r3 t d by simp
          qed
        qed
      qed
    qed
  qed
qed

lemma cycle_shape_logged:
  assumes "cycle_shape domain fetched st st'"
  shows "cycle_shape domain fetched st (emit (ErrorLogged og dm e) st')"
proof -
  from assms obtain evs where evs: "trace st' = trace st @ evs"
      "(db st' = db st \<and> posts evs = [] \<and> commits evs = [])
       \<or> (\<exists>new. new \<noteq> [] \<and> distinct new
                  \<and> set new = fetched - known_set domain (db st)
                  \<and> cycle_events domain new evs
                  \<and> stored (db st') = stored (db st) \<union> {domain} \<times> set new)"
    unfolding cycle_shape_def by blast
  have ce: "cycle_events domain new (evs @ [ErrorLogged og dm e])" if "cycle_events domain new evs" for new
    using that unfolding cycle_events_def by auto
  show ?thesis
    unfolding cycle_shape_def
    using evs ce
    by (intro exI [of _ "evs @ [ErrorLogged og dm e]"]) auto
qed

lemma monitor_domain2_returns: "fst (monitor_domain2 cfg w domain st) = Inr ()"
  by (simp add: monitor_domain2_def split: prod.splits sum.splits)

lemma monitor_domain2_shape:
  "cycle_shape domain (fetched2 w domain) st (snd (monitor_domain2 cfg w domain st))"
proof (cases "monitor_body2 cfg w domain st")
  case (Pair r sb)
  with monitor_body2_shape [of domain w st cfg]
  have sh: "cycle_shape domain (fetched2 w domain) st sb" by simp
  show ?thesis
  proof (cases r)
    case (Inl e)
    with Pair sh show ?thesis by (simp add: monitor_domain2_def cycle_shape_logged)
  next
    case (Inr u)
    with Pair sh show ?thesis by (simp add: monitor_domain2_def)
  qed
qed

lemma announcements_announce: "announcements tr = concat (map announce (posts tr))"
  by (simp add: announcements_def announce_def [abs_def])

lemma announcements_append [simp]:
  "announcements (xs @ ys) = announcements xs @ announcements ys"
  by (simp add: announcements_def)

lemma announcements_no_posts: "posts evs = [] \<Longrightarrow> announcements evs = []"
  by (simp add: announcements_def)

lemma announce_set:
  assumes "alert_lists domain new p"
  shows "set (announce p) = {fst p} \<times> {domain} \<times> set new"
proof -
  from assms have "alert_domain (snd p) = domain" "set (alert_hosts (snd p)) = set new"
    by (auto simp: alert_lists_def dest: mset_eq_setD)
  then show ?thesis by (auto simp: announce_def)
qed

lemma announce_distinct:
  assumes "alert_lists domain new p" "distinct new"
  shows "distinct (announce p)"
proof -
  from assms have "distinct (alert_hosts (snd p))"
    by (auto simp: alert_lists_def dest: mset_eq_imp_distinct_iff)
  then show ?thesis by (simp add: announce_def distinct_map inj_on_def)
qed

lemma announce_all_set:
  assumes "list_all (alert_lists domain new) ps" "x \<in> set (concat (map announce ps))"
  shows "fst x \<in> fst ` set ps \<and> snd x \<in> {domain} \<times> set new"
proof -
  from assms(2) obtain p where p: "p \<in> set ps" "x \<in> set (announce p)" by auto
  from assms(1) p(1) have "alert_lists domain new p" by (simp add: list_all_iff)
  from announce_set [OF this] p(2) have "x \<in> {fst p} \<times> {domain} \<times> set new" by simp
  then have "fst x = fst p" "snd x \<in> {domain} \<times> set new" by auto
  with p(1) show ?thesis by simp
qed

lemma announce_all_distinct:
  "list_all (alert_lists domain new) ps \<Longrightarrow> distinct (map fst ps) \<Longrightarrow> distinct new \<Longrightarrow>
     distinct (concat (map announce ps))"
proof (induction ps)
  case Nil
  then show ?case by simp
next
  case (Cons p ps)
  then have la: "alert_lists domain new p" "list_all (alert_lists domain new) ps"
    and np: "fst p \<notin> fst ` set ps" and dps: "distinct (map fst ps)"
    by simp_all
  have d1: "distinct (announce p)" using la(1) Cons.prems(3) by (rule announce_distinct)
  have d2: "distinct (concat (map announce ps))" using Cons.IH [OF la(2) dps Cons.prems(3)] .
  have "set (announce p) \<inter> set (concat (map announce ps)) = {}"
  proof (rule ccontr)
    assume "set (announce p) \<inter> set (concat (map announce ps)) \<noteq> {}"
    then obtain x where x: "x \<in> set (announce p)" "x \<in> set (concat (map announce ps))" by blast
    from x(1) have "fst x = fst p" unfolding announce_set [OF la(1)] by auto
    moreover have "fst x \<in> fst ` set ps"
      using announce_all_set [OF la(2) x(2)] by simp
    ultimately show False using np by simp
  qed
  with d1 d2 show ?case by simp
qed

lemma cycle_shape_announced_once:
  assumes "cycle_shape domain fetched st st'" "announced_once st"
  shows "announced_once st'"
proof -
  from assms(1) obtain evs where evs: "trace st' = trace st @ evs"
      "(db st' = db st \<and> posts evs = [] \<and> commits evs = [])
       \<or> (\<exists>new. new \<noteq> [] \<and> distinct new
                  \<and> set new = fetched - known_set domain (db st)
                  \<and> cycle_events domain new evs
                  \<and> stored (db st') = stored (db st) \<union> {domain} \<times> set new)"
    unfolding cycle_shape_def by blast
  have old: "snd ` set (announcements (trace st)) \<subseteq> stored (db st)"
      "distinct (announcements (trace st))"
    using assms(2) by (simp_all add: announced_once_def)
  from evs(2) show ?thesis
  proof
    assume "db st' = db st \<and> posts evs = [] \<and> commits evs = []"
    then show ?thesis
      using assms(2) evs(1) by (simp add: announced_once_def announcements_no_posts)
  next
    assume "\<exists>new. new \<noteq> [] \<and> distinct new
                  \<and> set new = fetched - known_set domain (db st)
                  \<and> cycle_events domain new evs
                  \<and> stored (db st') = stored (db st) \<union> {domain} \<times> set new"
    then obtain new rest where n: "distinct new" "set new = fetched - known_set domain (db st)"
        "stored (db st') = stored (db st) \<union> {domain} \<times> set new"
        "evs = Committed domain new # rest" "list_all (alert_lists domain new) (posts rest)"
        "distinct (map fst (posts rest))"
      unfolding cycle_events_def by blast
    have ann: "announcements evs = concat (map announce (posts rest))"
      by (simp add: n(4) announcements_announce)
    have d: "distinct (announcements evs)"
      unfolding ann using n(5,6,1) by (rule announce_all_distinct)
    have sub: "snd x \<in> {domain} \<times> set new" if "x \<in> set (announcements evs)" for x
      using announce_all_set [OF n(5)] that unfolding ann by blast
    have fresh: "y \<notin> stored (db st)" if "y \<in> {domain} \<times> set new" for y
      using that n(2) by (auto simp: known_set_def)
    have disj: "set (announcements (trace st)) \<inter> set (announcements evs) = {}"
    proof (rule ccontr)
      assume "set (announcements (trace st)) \<inter> set (announcements evs) \<noteq> {}"
      then obtain x where x: "x \<in> set (announcements (trace st))" "x \<in> set (announcements evs)"
        by blast
      from x(1) old(1) have "snd x \<in> stored (db st)" by blast
      with fresh [OF sub [OF x(2)]] show False by simp
    qed
    have st: "snd ` set (announcements (trace st')) \<subseteq> stored (db st')"
    proof
      fix y assume "y \<in> snd ` set (announcements (trace st'))"
      then obtain x where x: "y = snd x" "x \<in> set (announcements (trace st)) \<or> x \<in> set (announcements evs)"
        by (auto simp: evs(1))
      from x(2) show "y \<in> stored (db st')"
      proof
        assume "x \<in> set (announcements (trace st))"
        with old(1) have "snd x \<in> stored (db st)" by blast
        then show ?thesis by (simp add: x(1) n(3))
      next
        assume "x \<in> set (announcements evs)"
        from sub [OF this] show ?thesis by (simp add: x(1) n(3))
      qed
    qed
    show ?thesis
      unfolding announced_once_def
      using d old(2) disj st by (simp add: evs(1))
  qed
qed

lemma run_cycles2_announced_once:
  "announced_once st \<Longrightarrow>
     fst (run_cycles2 cfg cs st) = Inr () \<and> announced_once (snd (run_cycles2 cfg cs st))"
proof (induction cs arbitrary: st)
  case Nil
  then show ?case by simp
next
  case (Cons c cs)
  obtain r st' where m: "monitor_domain2 cfg (snd c) (fst c) st = (r, st')"
    by (cases "monitor_domain2 cfg (snd c) (fst c) st")
  with monitor_domain2_returns [of cfg "snd c" "fst c" st] have r: "r = Inr ()" by simp
  from monitor_domain2_shape [of "fst c" "snd c" st cfg] m
  have "cycle_shape (fst c) (fetched2 (snd c) (fst c)) st st'" by simp
  from cycle_shape_announced_once [OF this Cons.prems] have "announced_once st'" .
  from Cons.IH [OF this] show ?case using m r by simp
qed

lemma fetch1_effect:
  assumes "get_subdomains_from_crtsh1 w domain st = (r, st1)"
  shows "db st1 = db st \<and> (\<exists>lg. trace st1 = trace st @ lg \<and> posts lg = [] \<and> commits lg = [])"
proof (cases "fetch_json (crtsh w)")
  case (Inr data)
  with assms show ?thesis by (auto simp: get_subdomains_from_crtsh1_def)
next
  case (Inl e)
  with assms have "st1 = st \<or> st1 = emit (ErrorLogged Crtsh domain e) st"
    by (auto simp: get_subdomains_from_crtsh1_def split: if_splits)
  then show ?thesis
  proof
    assume "st1 = st" then show ?thesis by simp
  next
    assume "st1 = emit (ErrorLogged Crtsh domain e) st"
    then show ?thesis by (intro conjI exI [of _ "[ErrorLogged Crtsh domain e]"]) simp_all
  qed
qed

lemma fetch1_result:
  assumes "get_subdomains_from_crtsh1 w domain st = (Inr crtsh_subdomains, st1)"
  shows "set crtsh_subdomains = fetched1 w domain"
    and "crtsh_subdomains \<noteq> [] \<Longrightarrow> st1 = st"
  using assms
  by (auto simp: get_subdomains_from_crtsh1_def fetched1_def split: sum.splits if_splits)

lemma monitor_body1_shape:
  "cycle_shape domain (fetched1 w domain) st (snd (monitor_body1 cfg w domain st))"
proof -
  obtain r0 st1 where f: "get_subdomains_from_crtsh1 w domain st = (r0, st1)"
    by (cases "get_subdomains_from_crtsh1 w domain st")
  from fetch1_effect [OF f] obtain lg where
    st1: "db st1 = db st" "trace st1 = trace st @ lg" "posts lg = []" "commits lg = []"
    by blast
  have quiet1: "cycle_shape domain (fetched1 w domain) st st1"
    using st1 by (rule cycle_shape_quiet)
  show ?thesis
  proof (cases r0)
    case (Inl e)
    then show ?thesis using f quiet1 by (simp add: monitor_body1_def)
  next
    case (Inr dict)
    note f' = f [unfolded Inr]
    show ?thesis
    proof (cases "get_known_subdomains w domain (db st1)")
      case (Inl e)
      then show ?thesis using f' quiet1 by (simp add: monitor_body1_def)
    next
      case (Inr known)
      define new where "new = set_difference w dict known"
      have new_set: "set new = fetched1 w domain - known_set domain (db st)"
        using fetch1_result(1) [OF f'] get_known_set [OF Inr] st1(1)
        by (simp add: new_def)
      have new_dist: "distinct new" by (simp add: new_def)
      show ?thesis
      proof (cases "new = []")
        case True
        then show ?thesis
          using f' Inr quiet1 by (simp add: monitor_body1_def new_def Let_def)
      next
        case False
        then have "dict \<noteq> []" by (auto simp: new_def set_difference_def set_iter_def)
        from fetch1_result(2) [OF f' this] have eq: "st1 = st" .
        obtain r2 st2 where s: "save_new_subdomains1 w domain new st = (r2, st2)"
          by (cases "save_new_subdomains1 w domain new st")
        have body: "monitor_body1 cfg w domain st =
            (case (r2, st2) of
               (Inl e, st2) \<Rightarrow> (Inl e, st2)
             | (Inr u, st2) \<Rightarrow>
                 (case send_telegram_alert1 cfg w domain new st2 of
                    (Inl e, st3) \<Rightarrow> (Inl e, st3)
                  | (Inr u, st3) \<Rightarrow> send_discord_alert1 cfg w domain new st3))"
          using f' Inr False eq s by (simp add: monitor_body1_def new_def [symmetric] Let_def)
        show ?thesis
        proof (cases r2)
          case (Inl e)
          with save1_effect [OF s] have "st2 = st" by simp
          then show ?thesis
            using body Inl by (simp add: cycle_shape_quiet [where lg = "[]"])
        next
          case (Inr u)
          with save1_effect [OF s] False
          have st2: "trace st2 = trace st @ [Committed domain new]"
              "stored (db st2) = stored (db st) \<union> {domain} \<times> set new"
            by simp_all
          obtain r3 st3 where t: "send_telegram_alert1 cfg w domain new st2 = (r3, st3)"
            by (cases "send_telegram_alert1 cfg w domain new st2")
          have e3: "alert_effect Telegram domain new st2 st3"
            using telegram1_effect [of domain new st2 cfg w] t by simp
          have db3: "db st3 = db st2" using e3 by (simp add: alert_effect_def)
          show ?thesis
          proof (cases r3)
            case (Inl e)
            from cycle_events_one_alert [OF e3 st2(1)]
            obtain evs where "trace st3 = trace st @ evs" "cycle_events domain new evs"
              by blast
            then have "cycle_shape domain (fetched1 w domain) st st3"
              unfolding cycle_shape_def
              using False new_dist new_set st2(2) db3 by auto
            then show ?thesis using body Inr Inl t by simp
          next
            case r3: (Inr u3)
            obtain r4 st4 where d: "send_discord_alert1 cfg w domain new st3 = (r4, st4)"
              by (cases "send_discord_alert1 cfg w domain new st3")
            have e4: "alert_effect Discord domain new st3 st4"
              using discord1_effect [of domain new st3 cfg w] d by simp
            have db4: "db st4 = db st2" using e4 db3 by (simp add: alert_effect_def)
            from cycle_events_two_alerts [OF e3 e4 st2(1)]
            obtain evs where "trace st4 = trace st @ evs" "cycle_events domain new evs"
              by blast
            then have "cycle_shape domain (fetched1 w domain) st st4"
              unfolding cycle_shape_def
              using False new_dist new_set st2(2) db4 by auto
            then show ?thesis using body Inr r3 t d by simp
          qed
        qed
      qed
    qed
  qed
qed

lemma monitor_domain1_returns: "fst (monitor_domain1 cfg w domain st) = Inr ()"
  by (simp add: monitor_domain1_def split: prod.splits sum.splits)

lemma monitor_domain1_shape:
  "cycle_shape domain (fetched1 w domain) st (snd (monitor_domain1 cfg w domain st))"
proof (cases "monitor_body1 cfg w domain st")
  case (Pair r sb)
  with monitor_body1_shape [of domain w st cfg]
  have sh: "cycle_shape domain (fetched1 w domain) st sb" by simp
  show ?thesis
  proof (cases r)
    case (Inl e)
    with Pair sh show ?thesis by (simp add: monitor_domain1_def cycle_shape_logged)
  next
    case (Inr u)
    with Pair sh show ?thesis by (simp add: monitor_domain1_def)
  qed
qed

lemma run_cycles1_announced_once:
  "announced_once st \<Longrightarrow>
     fst (run_cycles1 cfg cs st) = Inr () \<and> announced_once (snd (run_cycles1 cfg cs st))"
proof (induction cs arbitrary: st)
  case Nil
  then show ?case by simp
next
  case (Cons c cs)
  obtain r st' where m: "monitor_domain1 cfg (snd c) (fst c) st = (r, st')"
    by (cases "monitor_domain1 cfg (snd c) (fst c) st")
  with monitor_domain1_returns [of cfg "snd c" "fst c" st] have r: "r = Inr ()" by simp
  from monitor_domain1_shape [of "fst c" "snd c" st cfg] m
  have "cycle_shape (fst c) (fetched1 (snd c) (fst c)) st st'" by simp
  from cycle_shape_announced_once [OF this Cons.prems] have "announced_once st'" .
  from Cons.IH [OF this] show ?case using m r by simp
qed

lemma announced_once_start: "posts (trace st) = [] \<Longrightarrow> announced_once st"
  by (simp add: announced_once_def announcements_no_posts)

lemma cycle_shape_persisted:
  assumes "cycle_shape domain fetched st st'"
  shows "\<exists>evs. trace st' = trace st @ evs
           \<and> (posts evs = []
               \<or> (\<exists>new rest. evs = Committed domain new # rest
                     \<and> list_all (alert_lists domain new) (posts rest)
                     \<and> set new \<subseteq> known_set domain (db st')
                     \<and> set new \<inter> known_set domain (db st) = {}))"
proof -
  from assms obtain evs where evs: "trace st' = trace st @ evs"
      "(db st' = db st \<and> posts evs = [] \<and> commits evs = [])
       \<or> (\<exists>new. new \<noteq> [] \<and> distinct new
                  \<and> set new = fetched - known_set domain (db st)
                  \<and> cycle_events domain new evs
                  \<and> stored (db st') = stored (db st) \<union> {domain} \<times> set new)"
    unfolding cycle_shape_def by blast
  from evs(2) show ?thesis
  proof
    assume "db st' = db st \<and> posts evs = [] \<and> commits evs = []"
    with evs(1) show ?thesis by blast
  next
    assume "\<exists>new. new \<noteq> [] \<and> distinct new
                  \<and> set new = fetched - known_set domain (db st)
                  \<and> cycle_events domain new evs
                  \<and> stored (db st') = stored (db st) \<union> {domain} \<times> set new"
    then obtain new rest where n: "set new = fetched - known_set domain (db st)"
        "stored (db st') = stored (db st) \<union> {domain} \<times> set new"
        "evs = Committed domain new # rest" "list_all (alert_lists domain new) (posts rest)"
      unfolding cycle_events_def by blast
    have "set new \<subseteq> known_set domain (db st')"
      using n(2) by (auto simp: known_set_def)
    moreover have "set new \<inter> known_set domain (db st) = {}"
      using n(1) by auto
    ultimately show ?thesis using evs(1) n(3,4) by blast
  qed
qed

text \<open>
  Claim C9. In every cycle of either script, whatever crt.sh, SQLite and the sinks do,
  the cycle returns normally and the events it adds are these: either no post at all,
  or the commit of the new hostnames first and after it the posts, each listing exactly
  the committed hostnames; these hostnames were not known before the cycle and are in
  the known set that the next cycle reads. Over any run of cycles that starts with no
  post made, no (sink, domain, hostname) is announced twice.
\<close>

theorem persisted_before_notified_at_most_once:
  assumes "posts (trace st) = []"
  shows "(\<exists>st' evs. monitor_domain2 cfg w domain st = (Inr (), st')
            \<and> trace st' = trace st @ evs
            \<and> (posts evs = []
                \<or> (\<exists>new rest. evs = Committed domain new # rest
                      \<and> list_all (alert_lists domain new) (posts rest)
                      \<and> set new \<subseteq> known_set domain (db st')
                      \<and> set new \<inter> known_set domain (db st) = {})))
       \<and> (\<exists>st' evs. monitor_domain1 cfg w domain st = (Inr (), st')
            \<and> trace st' = trace st @ evs
            \<and> (posts evs = []
                \<or> (\<exists>new rest. evs = Committed domain new # rest
                      \<and> list_all (alert_lists domain new) (posts rest)
                      \<and> set new \<subseteq> known_set domain (db st')
                      \<and> set new \<inter> known_set domain (db st) = {})))
       \<and> fst (run_cycles2 cfg cs st) = Inr ()
       \<and> distinct (announcements (trace (snd (run_cycles2 cfg cs st))))
       \<and> fst (run_cycles1 cfg cs st) = Inr ()
       \<and> distinct (announcements (trace (snd (run_cycles1 cfg cs st))))"
proof -
  have a2: "\<exists>st' evs. monitor_domain2 cfg w domain st = (Inr (), st')
            \<and> trace st' = trace st @ evs
            \<and> (posts evs = []
                \<or> (\<exists>new rest. evs = Committed domain new # rest
                      \<and> list_all (alert_lists domain new) (posts rest)
                      \<and> set new \<subseteq> known_set domain (db st')
                      \<and> set new \<inter> known_set domain (db st) = {}))"
    using cycle_shape_persisted [OF monitor_domain2_shape [of domain w st cfg]]
      monitor_domain2_returns [of cfg w domain st]
    by (metis prod.collapse)
  have a1: "\<exists>st' evs. monitor_domain1 cfg w domain st = (Inr (), st')
            \<and> trace st' = trace st @ evs
            \<and> (posts evs = []
                \<or> (\<exists>new rest. evs = Committed domain new # rest
                      \<and> list_all (alert_lists domain new) (posts rest)
                      \<and> set new \<subseteq> known_set domain (db st')
                      \<and> set new \<inter> known_set domain (db st) = {}))"
    using cycle_shape_persisted [OF monitor_domain1_shape [of domain w st cfg]]
      monitor_domain1_returns [of cfg w domain st]
    by (metis prod.collapse)
  from run_cycles2_announced_once [OF announced_once_start [OF assms], of cfg cs]
  have r2: "fst (run_cycles2 cfg cs st) = Inr ()"
      "distinct (announcements (trace (snd (run_cycles2 cfg cs st))))"
    by (simp_all add: announced_once_def)
  from run_cycles1_announced_once [OF announced_once_start [OF assms], of cfg cs]
  have r1: "fst (run_cycles1 cfg cs st) = Inr ()"
      "distinct (announcements (trace (snd (run_cycles1 cfg cs st))))"
    by (simp_all add: announced_once_def)
  from a2 a1 r2 r1 show ?thesis by blast
qed

lemma failing_sinks_run:
  "announcements (trace (snd (run_cycles2 both_sinks
      [(''example.com'', failing_sinks_world), (''example.com'', failing_sinks_world)] empty_store)))
     = [(Telegram, ''example.com'', ''www.example.com''), (Discord, ''example.com'', ''www.example.com'')]"
  "commits (trace (snd (run_cycles2 both_sinks
      [(''example.com'', failing_sinks_world), (''example.com'', failing_sinks_world)] empty_store)))
     = [(''example.com'', [''www.example.com''])]"
  "posts (trace empty_store) = []"
  by code_simp+

text \<open>
  Two cycles for the same domain in a world where both deliveries fail: the hostname
  is committed once and announced once to each sink, in the first cycle only.
\<close>

theorem persisted_before_notified_at_most_once_witness:
  "posts (trace empty_store) = []
   \<and> distinct (announcements (trace (snd (run_cycles2 both_sinks
        [(''example.com'', failing_sinks_world), (''example.com'', failing_sinks_world)] empty_store))))
   \<and> announcements (trace (snd (run_cycles2 both_sinks
        [(''example.com'', failing_sinks_world), (''example.com'', failing_sinks_world)] empty_store)))
       = [(Telegram, ''example.com'', ''www.example.com''), (Discord, ''example.com'', ''www.example.com'')]
   \<and> commits (trace (snd (run_cycles2 both_sinks
        [(''example.com'', failing_sinks_world), (''example.com'', failing_sinks_world)] empty_store)))
       = [(''example.com'', [''www.example.com''])]"
  using failing_sinks_run
    persisted_before_notified_at_most_once [OF failing_sinks_run(3), of both_sinks
      failing_sinks_world "''example.com''"
      "[(''example.com'', failing_sinks_world), (''example.com'', failing_sinks_world)]"]
  by simp

section \<open>Errors inside a cycle\<close>

lemma save2_fault:
  "sqlite_fault w SaveWrite = Some e \<Longrightarrow> snd (save_new_subdomains2 w domain new dates st) = st"
  by (simp add: save_new_subdomains2_def)

lemma save1_fault:
  "sqlite_fault w SaveWrite = Some e \<Longrightarrow> snd (save_new_subdomains1 w domain new st) = st"
  by (simp add: save_new_subdomains1_def)






















lemma crashing_sink_cycle:
  "fst (monitor_body2 both_sinks crashing_sink_world ''example.com'' empty_store) = Inl TypeError"
  "fst (monitor_domain2 both_sinks crashing_sink_world ''example.com'' empty_store) = Inr ()"
  "select_subdomains ''example.com'' (db empty_store) = Inr []"
  "select_subdomains ''example.com''
     (db (snd (monitor_domain2 both_sinks crashing_sink_world ''example.com'' empty_store)))
     = Inr [''www.example.com'']"
  "commits (trace (snd (monitor_domain2 both_sinks crashing_sink_world ''example.com'' empty_store)))
     = [(''example.com'', [''www.example.com''])]"
  "posts (trace (snd (monitor_domain2 both_sinks crashing_sink_world ''example.com'' empty_store)))
     = [(Telegram, \<lparr>alert_domain = ''example.com'', alert_hosts = [''www.example.com''],
                     alert_clock = ''2024-03-01 01:00:00''\<rparr>)]"
  "fst (monitor_body1 both_sinks crashing_sink_world ''example.com'' empty_store1) = Inl TypeError"
  "select_subdomains ''example.com'' (db empty_store1) = Inr []"
  "select_subdomains ''example.com''
     (db (snd (monitor_domain1 both_sinks crashing_sink_world ''example.com'' empty_store1)))
     = Inr [''www.example.com'']"
  by code_simp+

text \<open>
  The property as the specification words it fails for an error of the notify step: the
  first sink raises an exception that is no \<open>RequestException\<close>, \<open>monitor_domain\<close>
  catches it, and the cycle is not one that found no new hostname: the hostname is in
  the store, which was empty, it has been committed, and the first sink has been posted
  to.
\<close>

theorem notify_error_keeps_new_hostnames_counterexample:
  "fst (monitor_body2 both_sinks crashing_sink_world ''example.com'' empty_store) = Inl TypeError
   \<and> fst (monitor_domain2 both_sinks crashing_sink_world ''example.com'' empty_store) = Inr ()
   \<and> select_subdomains ''example.com'' (db empty_store) = Inr []
   \<and> select_subdomains ''example.com''
       (db (snd (monitor_domain2 both_sinks crashing_sink_world ''example.com'' empty_store)))
       = Inr [''www.example.com'']
   \<and> commits (trace (snd (monitor_domain2 both_sinks crashing_sink_world ''example.com'' empty_store)))
       = [(''example.com'', [''www.example.com''])]
   \<and> posts (trace (snd (monitor_domain2 both_sinks crashing_sink_world ''example.com'' empty_store)))
       = [(Telegram, \<lparr>alert_domain = ''example.com'', alert_hosts = [''www.example.com''],
                       alert_clock = ''2024-03-01 01:00:00''\<rparr>)]
   \<and> fst (monitor_body1 both_sinks crashing_sink_world ''example.com'' empty_store1) = Inl TypeError
   \<and> select_subdomains ''example.com'' (db empty_store1) = Inr []
   \<and> select_subdomains ''example.com''
       (db (snd (monitor_domain1 both_sinks crashing_sink_world ''example.com'' empty_store1)))
       = Inr [''www.example.com'']"
  by (intro conjI crashing_sink_cycle)

section \<open>A failed fetch\<close>






lemma set_difference_empty [simp]: "set_difference w [] known = []"
  by (simp add: set_difference_def set_iter_def)





lemma get_known_other_fetch [simp]:
  "get_known_subdomains (w\<lparr>crtsh := c\<rparr>) domain d = get_known_subdomains w domain d"
  by (simp add: get_known_subdomains_def)










text \<open>
  The property as the specification words it fails for a payload that is JSON of
  another shape: the fetch of either script raises instead of returning the empty
  result.
\<close>

theorem wrong_shape_payload_raises_counterexample:
  "fetch_fails (crtsh odd_json_world)
   \<and> crtsh odd_json_world = Response 200 (JsonRaising AttributeError)
   \<and> fst (get_subdomains_from_crtsh2 odd_json_world ''example.com'' empty_store)
       = Inl AttributeError
   \<and> fst (get_subdomains_from_crtsh1 odd_json_world ''example.com'' empty_store)
       = Inl AttributeError"
  by (intro conjI; code_simp)

section \<open>Cycles in which nothing fails\<close>

lemma committed_hosts_simps [simp]:
  "committed_hosts [] = {}"
  "committed_hosts (xs @ ys) = committed_hosts xs \<union> committed_hosts ys"
  "committed_hosts (Committed d hs # es) = set hs \<union> committed_hosts es"
  "committed_hosts (HttpPost sk a # es) = committed_hosts es"
  "committed_hosts (ErrorLogged og d e # es) = committed_hosts es"
  by (auto simp: committed_hosts_def)

lemma posted_hosts_simps [simp]:
  "posted_hosts sk [] = {}"
  "posted_hosts sk (xs @ ys) = posted_hosts sk xs \<union> posted_hosts sk ys"
  "posted_hosts sk (Committed d hs # es) = posted_hosts sk es"
  "posted_hosts sk (HttpPost sk' a # es)
     = (if sk' = sk then set (alert_hosts a) \<union> posted_hosts sk es else posted_hosts sk es)"
  "posted_hosts sk (ErrorLogged og d e # es) = posted_hosts sk es"
  by (auto simp: posted_hosts_def)

lemma committed_hosts_none: "commits lg = [] \<Longrightarrow> committed_hosts lg = {}"
  by (simp add: committed_hosts_def)

lemma posted_hosts_none: "posts lg = [] \<Longrightarrow> posted_hosts sk lg = {}"
  by (simp add: posted_hosts_def)

lemma deliver_ok:
  assumes "post_ok outcome"
  shows "\<exists>logged. deliver sk outcome a st = (Inr (), st\<lparr>trace := trace st @ HttpPost sk a # logged\<rparr>)
            \<and> posts logged = [] \<and> commits logged = []"
proof (cases "post_result outcome")
  case (Inr u)
  then show ?thesis
    by (intro exI [of _ "[]"]) (simp add: deliver_def emit_def)
next
  case (Inl e)
  with assms have "is_RequestException e" by (simp add: post_ok_def)
  with Inl show ?thesis
    by (intro exI [of _ "[ErrorLogged (Alert sk) (alert_domain a) e]"])
       (simp add: deliver_def emit_def Let_def)
qed

lemma alert_done_skip: "\<not> enabled \<Longrightarrow> alert_done sk enabled new st (Inr (), st)"
  unfolding alert_done_def by (intro exI [of _ "[]"]) simp

lemma alert_done_deliver:
  assumes "post_ok outcome" "set (alert_hosts a) = set new"
  shows "alert_done sk True new st (deliver sk outcome a st)"
proof -
  from deliver_ok [OF assms(1), of sk a st]
  obtain logged where l: "deliver sk outcome a st = (Inr (), st\<lparr>trace := trace st @ HttpPost sk a # logged\<rparr>)"
      "posts logged = []" "commits logged = []"
    by blast
  show ?thesis
    unfolding alert_done_def l(1)
    using l(2,3) assms(2)
    by (intro exI [of _ "HttpPost sk a # logged"]) (auto simp: posted_hosts_none)
qed

lemma telegram2_done:
  assumes "post_ok (telegram_api w)" "dates \<noteq> []" "new \<noteq> []"
  shows "alert_done Telegram (telegram_enabled cfg) new st
           (send_telegram_alert2 cfg w domain new dates st)"
proof (cases "telegram_enabled cfg")
  case False
  then have "send_telegram_alert2 cfg w domain new dates st = (Inr (), st)"
    by (auto simp: send_telegram_alert2_def telegram_enabled_def)
  with False show ?thesis by (simp add: alert_done_skip)
next
  case True
  then have "send_telegram_alert2 cfg w domain new dates st
      = deliver Telegram (telegram_api w)
          \<lparr>alert_domain = domain, alert_hosts = sort_key (date_key dates) new, alert_clock = clock w\<rparr> st"
    using assms(2,3) by (simp add: send_telegram_alert2_def telegram_enabled_def sorted_subdomains2_def)
  with True alert_done_deliver [OF assms(1), of _ new Telegram st] show ?thesis by simp
qed

lemma discord2_done:
  assumes "post_ok (discord_api w)" "dates \<noteq> []" "new \<noteq> []"
  shows "alert_done Discord (discord_enabled cfg) new st
           (send_discord_alert2 cfg w domain new dates st)"
proof (cases "discord_enabled cfg")
  case False
  then have "send_discord_alert2 cfg w domain new dates st = (Inr (), st)"
    by (auto simp: send_discord_alert2_def discord_enabled_def)
  with False show ?thesis by (simp add: alert_done_skip)
next
  case True
  then have "send_discord_alert2 cfg w domain new dates st
      = deliver Discord (discord_api w)
          \<lparr>alert_domain = domain, alert_hosts = sort_key (date_key dates) new, alert_clock = clock w\<rparr> st"
    using assms(2,3) by (simp add: send_discord_alert2_def discord_enabled_def sorted_subdomains2_def)
  with True alert_done_deliver [OF assms(1), of _ new Discord st] show ?thesis by simp
qed

lemma telegram1_done:
  assumes "post_ok (telegram_api w)" "new \<noteq> []"
  shows "alert_done Telegram (telegram_enabled cfg) new st
           (send_telegram_alert1 cfg w domain new st)"
proof (cases "telegram_enabled cfg")
  case False
  then have "send_telegram_alert1 cfg w domain new st = (Inr (), st)"
    by (auto simp: send_telegram_alert1_def telegram_enabled_def)
  with False show ?thesis by (simp add: alert_done_skip)
next
  case True
  then have "send_telegram_alert1 cfg w domain new st
      = deliver Telegram (telegram_api w)
          \<lparr>alert_domain = domain, alert_hosts = sort new, alert_clock = clock w\<rparr> st"
    using assms(2) by (simp add: send_telegram_alert1_def telegram_enabled_def)
  with True alert_done_deliver [OF assms(1), of _ new Telegram st] show ?thesis by simp
qed

lemma discord1_done:
  assumes "post_ok (discord_api w)" "new \<noteq> []"
  shows "alert_done Discord (discord_enabled cfg) new st
           (send_discord_alert1 cfg w domain new st)"
proof (cases "discord_enabled cfg")
  case False
  then have "send_discord_alert1 cfg w domain new st = (Inr (), st)"
    by (auto simp: send_discord_alert1_def discord_enabled_def)
  with False show ?thesis by (simp add: alert_done_skip)
next
  case True
  then have "send_discord_alert1 cfg w domain new st
      = deliver Discord (discord_api w)
          \<lparr>alert_domain = domain, alert_hosts = sort new, alert_clock = clock w\<rparr> st"
    using assms(2) by (simp add: send_discord_alert1_def discord_enabled_def)
  with True alert_done_deliver [OF assms(1), of _ new Discord st] show ?thesis by simp
qed

lemma cycle_result_nothing_new:
  assumes "db st = Some t" "fetched - known_set domain (db st) = {}"
  shows "cycle_result cfg domain fetched t st (Inr (), st)"
  unfolding cycle_result_def
  using assms by (intro exI [of _ st] exI [of _ "[]"] exI [of _ t]) auto

lemma cycle_result_alerts:
  assumes t: "alert_done Telegram (telegram_enabled cfg) new st2 rt"
    and d: "\<And>st3. alert_done Discord (discord_enabled cfg) new st3 (rd st3)"
    and st2: "trace st2 = trace st @ [Committed domain new]" "db st2 = Some t'"
      "tbl_columns t' = tbl_columns t"
      "stored (db st2) = stored (db st) \<union> {domain} \<times> set new"
    and new: "set new = fetched - known_set domain (db st)"
  shows "cycle_result cfg domain fetched t st
           (case rt of (Inl e, st3) \<Rightarrow> (Inl e, st3) | (Inr u, st3) \<Rightarrow> rd st3)"
proof -
  from t obtain lt where lt: "rt = (Inr (), st2\<lparr>trace := trace st2 @ lt\<rparr>)" "commits lt = []"
      "posted_hosts Telegram lt = (if telegram_enabled cfg then set new else {})"
      "posted_hosts Discord lt = {}"
    unfolding alert_done_def by (metis sink.distinct(1))
  define st3 where "st3 = st2\<lparr>trace := trace st2 @ lt\<rparr>"
  from d [of st3] obtain ld where ld: "rd st3 = (Inr (), st3\<lparr>trace := trace st3 @ ld\<rparr>)"
      "commits ld = []"
      "posted_hosts Discord ld = (if discord_enabled cfg then set new else {})"
      "posted_hosts Telegram ld = {}"
    unfolding alert_done_def by (metis sink.distinct(1))
  define st4 where "st4 = st3\<lparr>trace := trace st3 @ ld\<rparr>"
  have res: "(case rt of (Inl e, st3) \<Rightarrow> (Inl e, st3) | (Inr u, st3) \<Rightarrow> rd st3) = (Inr (), st4)"
    by (simp add: lt(1) st3_def [symmetric] ld(1) st4_def)
  have tr: "trace st4 = trace st @ (Committed domain new # lt @ ld)"
    by (simp add: st4_def st3_def st2(1))
  have db4: "db st4 = Some t'" by (simp add: st4_def st3_def st2(2))
  have known: "known_set domain (db st4) = known_set domain (db st) \<union> fetched"
  proof -
    have "stored (db st4) = stored (db st) \<union> {domain} \<times> set new"
      using st2(4) by (simp add: st4_def st3_def)
    then show ?thesis using new by (auto simp: known_set_def)
  qed
  show ?thesis
    unfolding cycle_result_def res
    using tr db4 st2(3) known lt(2-4) ld(2-4) new
    by (intro exI [of _ st4] exI [of _ "Committed domain new # lt @ ld"] exI [of _ t'])
       (simp add: committed_hosts_none)
qed

lemma fetch_ok2:
  assumes "cycle_succeeds w"
  shows "\<exists>dict. get_subdomains_from_crtsh2 w domain st = (Inr dict, st)
               \<and> set (map fst dict) = fetched2 w domain"
  using assms
  by (auto simp: cycle_succeeds_def get_subdomains_from_crtsh2_def fetched2_def split: sum.splits)

lemma fetch_ok1:
  assumes "cycle_succeeds w"
  shows "\<exists>found. get_subdomains_from_crtsh1 w domain st = (Inr found, st)
               \<and> set found = fetched1 w domain"
  using assms
  by (auto simp: cycle_succeeds_def get_subdomains_from_crtsh1_def fetched1_def split: sum.splits)

lemma known_ok:
  assumes "cycle_succeeds w" "has_columns t [''subdomain'', ''domain'']"
  shows "\<exists>known. get_known_subdomains w domain (Some t) = Inr known
                \<and> set known = known_set domain (Some t)"
proof -
  from assms obtain known where k: "get_known_subdomains w domain (Some t) = Inr known"
    by (auto simp: cycle_succeeds_def get_known_subdomains_def select_subdomains_def)
  from get_known_set [OF k] k show ?thesis by blast
qed

lemma save2_ok:
  assumes "cycle_succeeds w" "db st = Some t" "new \<noteq> []"
    and "has_columns t [''domain'', ''subdomain'', ''release_date'']"
    and "has_columns t [''last_seen'', ''domain'', ''subdomain'']"
  shows "\<exists>t'. save_new_subdomains2 w domain new dates st
             = (Inr (), emit (Committed domain new) (st\<lparr>db := Some t'\<rparr>))
           \<and> tbl_columns t' = tbl_columns t
           \<and> stored (Some t') = stored (Some t) \<union> {domain} \<times> set new"
proof -
  from save_rows_ok [OF assms(4,5), of "current_timestamp w" domain "release_date_of dates" new]
  obtain t' where "save_rows (current_timestamp w) [''domain'', ''subdomain'', ''release_date'']
        domain (release_date_of dates) new (Some t) = Inr (Some t')"
      "tbl_columns t' = tbl_columns t"
      "stored (Some t') = stored (Some t) \<union> {domain} \<times> set new"
    by blast
  then show ?thesis
    using assms(1-3) by (intro exI [of _ t']) (simp add: save_new_subdomains2_def cycle_succeeds_def)
qed

lemma save1_ok:
  assumes "cycle_succeeds w" "db st = Some t" "new \<noteq> []"
    and "has_columns t [''domain'', ''subdomain'']"
    and "has_columns t [''last_seen'', ''domain'', ''subdomain'']"
  shows "\<exists>t'. save_new_subdomains1 w domain new st
             = (Inr (), emit (Committed domain new) (st\<lparr>db := Some t'\<rparr>))
           \<and> tbl_columns t' = tbl_columns t
           \<and> stored (Some t') = stored (Some t) \<union> {domain} \<times> set new"
proof -
  from save_rows_ok [OF assms(4,5), of "current_timestamp w" domain "\<lambda>s. None" new]
  obtain t' where "save_rows (current_timestamp w) [''domain'', ''subdomain'']
        domain (\<lambda>s. None) new (Some t) = Inr (Some t')"
      "tbl_columns t' = tbl_columns t"
      "stored (Some t') = stored (Some t) \<union> {domain} \<times> set new"
    by blast
  then show ?thesis
    using assms(1-3) by (intro exI [of _ t']) (simp add: save_new_subdomains1_def cycle_succeeds_def)
qed

lemma schema2_columns:
  assumes "has_columns t schema2"
  shows "has_columns t [''subdomain'', ''domain'']"
    "has_columns t [''domain'', ''subdomain'', ''release_date'']"
    "has_columns t [''domain'', ''subdomain'']"
    "has_columns t [''last_seen'', ''domain'', ''subdomain'']"
  using assms by (simp_all add: has_columns_def schema2_def)

lemma monitor_body2_success:
  assumes ok: "cycle_succeeds w" and db: "db st = Some t" and cols: "has_columns t schema2"
  shows "cycle_result cfg domain (fetched2 w domain) t st (monitor_body2 cfg w domain st)"
proof -
  from fetch_ok2 [OF ok, of domain st] obtain dict where
    f: "get_subdomains_from_crtsh2 w domain st = (Inr dict, st)"
       "set (map fst dict) = fetched2 w domain"
    by blast
  from known_ok [OF ok schema2_columns(1) [OF cols], of domain] obtain known where
    k: "get_known_subdomains w domain (Some t) = Inr known" "set known = known_set domain (Some t)"
    by blast
  define new where "new = set_difference w (map fst dict) known"
  have new_set: "set new = fetched2 w domain - known_set domain (db st)"
    using f(2) k(2) db by (simp add: new_def)
  show ?thesis
  proof (cases "new = []")
    case True
    then have "monitor_body2 cfg w domain st = (Inr (), st)"
      using f(1) k(1) db by (simp add: monitor_body2_def new_def Let_def)
    moreover have "fetched2 w domain - known_set domain (db st) = {}"
      using True new_set by simp
    ultimately show ?thesis using cycle_result_nothing_new [OF db] by simp
  next
    case False
    then have dne: "dict \<noteq> []" by (auto simp: new_def set_difference_def set_iter_def)
    from save2_ok [OF ok db False schema2_columns(2,4) [OF cols], of domain dict]
    obtain t' where s: "save_new_subdomains2 w domain new dict st
             = (Inr (), emit (Committed domain new) (st\<lparr>db := Some t'\<rparr>))"
        "tbl_columns t' = tbl_columns t"
        "stored (Some t') = stored (Some t) \<union> {domain} \<times> set new"
      by blast
    define st2 where "st2 = emit (Committed domain new) (st\<lparr>db := Some t'\<rparr>)"
    have body: "monitor_body2 cfg w domain st
        = (case send_telegram_alert2 cfg w domain new dict st2 of
             (Inl e, st3) \<Rightarrow> (Inl e, st3)
           | (Inr u, st3) \<Rightarrow> send_discord_alert2 cfg w domain new dict st3)"
      using f(1) k(1) db False s(1)
      by (simp add: monitor_body2_def new_def [symmetric] Let_def st2_def)
    have pk: "post_ok (telegram_api w)" "post_ok (discord_api w)"
      using ok by (simp_all add: cycle_succeeds_def)
    show ?thesis
      unfolding body
    proof (rule cycle_result_alerts [where t' = t' and new = new])
      show "alert_done Telegram (telegram_enabled cfg) new st2
              (send_telegram_alert2 cfg w domain new dict st2)"
        using pk(1) dne False by (rule telegram2_done)
      show "alert_done Discord (discord_enabled cfg) new st3
              (send_discord_alert2 cfg w domain new dict st3)" for st3
        using pk(2) dne False by (rule discord2_done)
      show "trace st2 = trace st @ [Committed domain new]" by (simp add: st2_def)
      show "db st2 = Some t'" by (simp add: st2_def)
      show "tbl_columns t' = tbl_columns t" by (rule s(2))
      show "stored (db st2) = stored (db st) \<union> {domain} \<times> set new"
        by (simp add: st2_def s(3) db)
      show "set new = fetched2 w domain - known_set domain (db st)" by (rule new_set)
    qed
  qed
qed

lemma schema1_columns:
  assumes "has_columns t schema1"
  shows "has_columns t [''subdomain'', ''domain'']"
    "has_columns t [''domain'', ''subdomain'']"
    "has_columns t [''last_seen'', ''domain'', ''subdomain'']"
  using assms by (simp_all add: has_columns_def schema1_def)

lemma monitor_body1_success:
  assumes ok: "cycle_succeeds w" and db: "db st = Some t" and cols: "has_columns t schema1"
  shows "cycle_result cfg domain (fetched1 w domain) t st (monitor_body1 cfg w domain st)"
proof -
  from fetch_ok1 [OF ok, of domain st] obtain found where
    f: "get_subdomains_from_crtsh1 w domain st = (Inr found, st)"
       "set found = fetched1 w domain"
    by blast
  from known_ok [OF ok schema1_columns(1) [OF cols], of domain] obtain known where
    k: "get_known_subdomains w domain (Some t) = Inr known" "set known = known_set domain (Some t)"
    by blast
  define new where "new = set_difference w found known"
  have new_set: "set new = fetched1 w domain - known_set domain (db st)"
    using f(2) k(2) db by (simp add: new_def)
  show ?thesis
  proof (cases "new = []")
    case True
    then have "monitor_body1 cfg w domain st = (Inr (), st)"
      using f(1) k(1) db by (simp add: monitor_body1_def new_def Let_def)
    moreover have "fetched1 w domain - known_set domain (db st) = {}"
      using True new_set by simp
    ultimately show ?thesis using cycle_result_nothing_new [OF db] by simp
  next
    case False
    from save1_ok [OF ok db False schema1_columns(2,3) [OF cols], of domain]
    obtain t' where s: "save_new_subdomains1 w domain new st
             = (Inr (), emit (Committed domain new) (st\<lparr>db := Some t'\<rparr>))"
        "tbl_columns t' = tbl_columns t"
        "stored (Some t') = stored (Some t) \<union> {domain} \<times> set new"
      by blast
    define st2 where "st2 = emit (Committed domain new) (st\<lparr>db := Some t'\<rparr>)"
    have body: "monitor_body1 cfg w domain st
        = (case send_telegram_alert1 cfg w domain new st2 of
             (Inl e, st3) \<Rightarrow> (Inl e, st3)
           | (Inr u, st3) \<Rightarrow> send_discord_alert1 cfg w domain new st3)"
      using f(1) k(1) db False s(1)
      by (simp add: monitor_body1_def new_def [symmetric] Let_def st2_def)
    have pk: "post_ok (telegram_api w)" "post_ok (discord_api w)"
      using ok by (simp_all add: cycle_succeeds_def)
    show ?thesis
      unfolding body
    proof (rule cycle_result_alerts [where t' = t' and new = new])
      show "alert_done Telegram (telegram_enabled cfg) new st2
              (send_telegram_alert1 cfg w domain new st2)"
        using pk(1) False by (rule telegram1_done)
      show "alert_done Discord (discord_enabled cfg) new st3
              (send_discord_alert1 cfg w domain new st3)" for st3
        using pk(2) False by (rule discord1_done)
      show "trace st2 = trace st @ [Committed domain new]" by (simp add: st2_def)
      show "db st2 = Some t'" by (simp add: st2_def)
      show "tbl_columns t' = tbl_columns t" by (rule s(2))
      show "stored (db st2) = stored (db st) \<union> {domain} \<times> set new"
        by (simp add: st2_def s(3) db)
      show "set new = fetched1 w domain - known_set domain (db st)" by (rule new_set)
    qed
  qed
qed

lemma cycle_result_domain2:
  assumes "cycle_result cfg domain fetched t st (monitor_body2 cfg w domain st)"
  shows "cycle_result cfg domain fetched t st (monitor_domain2 cfg w domain st)"
  using assms unfolding cycle_result_def monitor_domain2_def by auto

lemma cycle_result_domain1:
  assumes "cycle_result cfg domain fetched t st (monitor_body1 cfg w domain st)"
  shows "cycle_result cfg domain fetched t st (monitor_domain1 cfg w domain st)"
  using assms unfolding cycle_result_def monitor_domain1_def by auto

lemma two_cycles_result:
  assumes c1: "cycle_result cfg domain fa t st ra"
    and c2: "\<And>st1 t1. ra = (Inr (), st1) \<Longrightarrow> db st1 = Some t1 \<Longrightarrow> tbl_columns t1 = tbl_columns t
               \<Longrightarrow> cycle_result cfg domain fb t1 st1 (rb st1)"
  shows "\<exists>st1 st2 evs1 evs2.
       ra = (Inr (), st1) \<and> trace st1 = trace st @ evs1
     \<and> rb st1 = (Inr (), st2) \<and> trace st2 = trace st1 @ evs2
     \<and> committed_hosts evs1 = fa - known_set domain (db st)
     \<and> known_set domain (db st1) = known_set domain (db st) \<union> fa
     \<and> committed_hosts evs2 = fb - fa - known_set domain (db st)
     \<and> posted_hosts Telegram evs2
         = (if telegram_enabled cfg then fb - fa - known_set domain (db st) else {})
     \<and> posted_hosts Discord evs2
         = (if discord_enabled cfg then fb - fa - known_set domain (db st) else {})
     \<and> posted_hosts Telegram evs2 \<inter> fa = {}
     \<and> posted_hosts Discord evs2 \<inter> fa = {}
     \<and> known_set domain (db st2) = known_set domain (db st) \<union> fa \<union> fb"
proof -
  from c1 obtain st1 evs1 t1 where a: "ra = (Inr (), st1)" "trace st1 = trace st @ evs1"
      "committed_hosts evs1 = fa - known_set domain (db st)"
      "db st1 = Some t1" "tbl_columns t1 = tbl_columns t"
      "known_set domain (db st1) = known_set domain (db st) \<union> fa"
    unfolding cycle_result_def by blast
  from c2 [OF a(1,4,5)] obtain st2 evs2 where b: "rb st1 = (Inr (), st2)"
      "trace st2 = trace st1 @ evs2"
      "committed_hosts evs2 = fb - known_set domain (db st1)"
      "posted_hosts Telegram evs2 = (if telegram_enabled cfg then fb - known_set domain (db st1) else {})"
      "posted_hosts Discord evs2 = (if discord_enabled cfg then fb - known_set domain (db st1) else {})"
      "known_set domain (db st2) = known_set domain (db st1) \<union> fb"
    unfolding cycle_result_def by blast
  have eq: "fb - known_set domain (db st1) = fb - fa - known_set domain (db st)"
    unfolding a(6) by auto
  have "posted_hosts Telegram evs2 \<inter> fa = {}" "posted_hosts Discord evs2 \<inter> fa = {}"
    using b(4,5) unfolding eq by (auto split: if_splits)
  then show ?thesis
    using a(1,2,3,6) b(1,2) b(3-5) [unfolded eq] b(6) [unfolded a(6)]
    by (intro exI [of _ st1] exI [of _ st2] exI [of _ evs1] exI [of _ evs2]) simp
qed

text \<open>
  Claim C1, as the code has it. Take two consecutive cycles of one domain in which
  nothing fails, on a store that has the columns of the script that runs (those that
  subdomain_monitor.py creates for its own cycles, those with \<open>release_date\<close> for
  subdomain2.py), and let \<open>S1\<close> and \<open>S2\<close> be the fetched sets and \<open>K\<close> the set
  known before the first cycle. In both scripts the first cycle commits exactly
  \<open>S1 - K\<close> and leaves \<open>K \<union> S1\<close> known (nothing is removed); the second cycle
  commits exactly \<open>S2 - S1 - K\<close>, posts exactly these hostnames to each enabled
  sink, posts no hostname of \<open>S1\<close>, and leaves \<open>K \<union> S1 \<union> S2\<close> known. When no
  hostname of \<open>S2 - S1\<close> was known before the first cycle, this is \<open>S2 - S1\<close>.
\<close>

theorem new_hostnames_of_two_cycles:
  assumes "cycle_succeeds w1" and "cycle_succeeds w2" and "db st = Some t"
  shows "(has_columns t schema2 \<longrightarrow>
     (\<exists>st1 st2 evs1 evs2.
       monitor_domain2 cfg w1 domain st = (Inr (), st1) \<and> trace st1 = trace st @ evs1
     \<and> monitor_domain2 cfg w2 domain st1 = (Inr (), st2) \<and> trace st2 = trace st1 @ evs2
     \<and> committed_hosts evs1 = fetched2 w1 domain - known_set domain (db st)
     \<and> known_set domain (db st1) = known_set domain (db st) \<union> fetched2 w1 domain
     \<and> committed_hosts evs2 = fetched2 w2 domain - fetched2 w1 domain - known_set domain (db st)
     \<and> posted_hosts Telegram evs2
         = (if telegram_enabled cfg
            then fetched2 w2 domain - fetched2 w1 domain - known_set domain (db st) else {})
     \<and> posted_hosts Discord evs2
         = (if discord_enabled cfg
            then fetched2 w2 domain - fetched2 w1 domain - known_set domain (db st) else {})
     \<and> posted_hosts Telegram evs2 \<inter> fetched2 w1 domain = {}
     \<and> posted_hosts Discord evs2 \<inter> fetched2 w1 domain = {}
     \<and> known_set domain (db st2)
         = known_set domain (db st) \<union> fetched2 w1 domain \<union> fetched2 w2 domain))
   \<and> (has_columns t schema1 \<longrightarrow>
     (\<exists>st1 st2 evs1 evs2.
       monitor_domain1 cfg w1 domain st = (Inr (), st1) \<and> trace st1 = trace st @ evs1
     \<and> monitor_domain1 cfg w2 domain st1 = (Inr (), st2) \<and> trace st2 = trace st1 @ evs2
     \<and> committed_hosts evs1 = fetched1 w1 domain - known_set domain (db st)
     \<and> known_set domain (db st1) = known_set domain (db st) \<union> fetched1 w1 domain
     \<and> committed_hosts evs2 = fetched1 w2 domain - fetched1 w1 domain - known_set domain (db st)
     \<and> posted_hosts Telegram evs2
         = (if telegram_enabled cfg
            then fetched1 w2 domain - fetched1 w1 domain - known_set domain (db st) else {})
     \<and> posted_hosts Discord evs2
         = (if discord_enabled cfg
            then fetched1 w2 domain - fetched1 w1 domain - known_set domain (db st) else {})
     \<and> posted_hosts Telegram evs2 \<inter> fetched1 w1 domain = {}
     \<and> posted_hosts Discord evs2 \<inter> fetched1 w1 domain = {}
     \<and> known_set domain (db st2)
         = known_set domain (db st) \<union> fetched1 w1 domain \<union> fetched1 w2 domain))"
proof (intro conjI impI)
  assume c2: "has_columns t schema2"
  have cols: "has_columns t1 schema2" if "tbl_columns t1 = tbl_columns t" for t1
    using that c2 by (simp add: has_columns_def)
  show "\<exists>st1 st2 evs1 evs2.
       monitor_domain2 cfg w1 domain st = (Inr (), st1) \<and> trace st1 = trace st @ evs1
     \<and> monitor_domain2 cfg w2 domain st1 = (Inr (), st2) \<and> trace st2 = trace st1 @ evs2
     \<and> committed_hosts evs1 = fetched2 w1 domain - known_set domain (db st)
     \<and> known_set domain (db st1) = known_set domain (db st) \<union> fetched2 w1 domain
     \<and> committed_hosts evs2 = fetched2 w2 domain - fetched2 w1 domain - known_set domain (db st)
     \<and> posted_hosts Telegram evs2
         = (if telegram_enabled cfg
            then fetched2 w2 domain - fetched2 w1 domain - known_set domain (db st) else {})
     \<and> posted_hosts Discord evs2
         = (if discord_enabled cfg
            then fetched2 w2 domain - fetched2 w1 domain - known_set domain (db st) else {})
     \<and> posted_hosts Telegram evs2 \<inter> fetched2 w1 domain = {}
     \<and> posted_hosts Discord evs2 \<inter> fetched2 w1 domain = {}
     \<and> known_set domain (db st2)
         = known_set domain (db st) \<union> fetched2 w1 domain \<union> fetched2 w2 domain"
  proof (rule two_cycles_result [where t = t and rb = "monitor_domain2 cfg w2 domain"])
    show "cycle_result cfg domain (fetched2 w1 domain) t st (monitor_domain2 cfg w1 domain st)"
      using assms(1,3) c2 by (intro cycle_result_domain2 monitor_body2_success)
    show "cycle_result cfg domain (fetched2 w2 domain) t1 st1 (monitor_domain2 cfg w2 domain st1)"
      if "db st1 = Some t1" "tbl_columns t1 = tbl_columns t" for st1 t1
      using assms(2) that(1) cols [OF that(2)]
      by (intro cycle_result_domain2 monitor_body2_success)
  qed
next
  assume c1: "has_columns t schema1"
  have cols: "has_columns t1 schema1" if "tbl_columns t1 = tbl_columns t" for t1
    using that c1 by (simp add: has_columns_def)
  show "\<exists>st1 st2 evs1 evs2.
       monitor_domain1 cfg w1 domain st = (Inr (), st1) \<and> trace st1 = trace st @ evs1
     \<and> monitor_domain1 cfg w2 domain st1 = (Inr (), st2) \<and> trace st2 = trace st1 @ evs2
     \<and> committed_hosts evs1 = fetched1 w1 domain - known_set domain (db st)
     \<and> known_set domain (db st1) = known_set domain (db st) \<union> fetched1 w1 domain
     \<and> committed_hosts evs2 = fetched1 w2 domain - fetched1 w1 domain - known_set domain (db st)
     \<and> posted_hosts Telegram evs2
         = (if telegram_enabled cfg
            then fetched1 w2 domain - fetched1 w1 domain - known_set domain (db st) else {})
     \<and> posted_hosts Discord evs2
         = (if discord_enabled cfg
            then fetched1 w2 domain - fetched1 w1 domain - known_set domain (db st) else {})
     \<and> posted_hosts Telegram evs2 \<inter> fetched1 w1 domain = {}
     \<and> posted_hosts Discord evs2 \<inter> fetched1 w1 domain = {}
     \<and> known_set domain (db st2)
         = known_set domain (db st) \<union> fetched1 w1 domain \<union> fetched1 w2 domain"
  proof (rule two_cycles_result [where t = t and rb = "monitor_domain1 cfg w2 domain"])
    show "cycle_result cfg domain (fetched1 w1 domain) t st (monitor_domain1 cfg w1 domain st)"
      using assms(1,3) c1 by (intro cycle_result_domain1 monitor_body1_success)
    show "cycle_result cfg domain (fetched1 w2 domain) t1 st1 (monitor_domain1 cfg w2 domain st1)"
      if "db st1 = Some t1" "tbl_columns t1 = tbl_columns t" for st1 t1
      using assms(2) that(1) cols [OF that(2)]
      by (intro cycle_result_domain1 monitor_body1_success)
  qed
qed

lemma scenario_facts:
  "cycle_succeeds scenario_world1"
  "cycle_succeeds scenario_world2"
  "db empty_store = Some \<lparr>tbl_columns = schema2, tbl_rows = [], tbl_seq = 0\<rparr>"
  "has_columns \<lparr>tbl_columns = schema2, tbl_rows = [], tbl_seq = 0\<rparr> schema2"
  "commits (trace (snd (run_cycles2 both_sinks
      [(''example.com'', scenario_world1), (''example.com'', scenario_world2)] empty_store)))
     = [(''example.com'', [''api.example.com'', ''www.example.com'']),
        (''example.com'', [''new.example.com''])]"
  "map (\<lambda>p. (fst p, alert_hosts (snd p))) (posts (trace (snd (run_cycles2 both_sinks
      [(''example.com'', scenario_world1), (''example.com'', scenario_world2)] empty_store))))
     = [(Telegram, [''api.example.com'', ''www.example.com'']),
        (Discord, [''api.example.com'', ''www.example.com'']),
        (Telegram, [''new.example.com'']),
        (Discord, [''new.example.com''])]"
  by code_simp+

lemma scenario_facts1:
  "db empty_store1 = Some \<lparr>tbl_columns = schema1, tbl_rows = [], tbl_seq = 0\<rparr>"
  "has_columns \<lparr>tbl_columns = schema1, tbl_rows = [], tbl_seq = 0\<rparr> schema1"
  "map (\<lambda>c. (fst c, sort (snd c))) (commits (trace (snd (run_cycles1 both_sinks
      [(''example.com'', scenario_world1), (''example.com'', scenario_world2)] empty_store1))))
     = [(''example.com'', [''api.example.com'', ''www.example.com'']),
        (''example.com'', [''new.example.com''])]"
  "map (\<lambda>p. (fst p, alert_hosts (snd p))) (posts (trace (snd (run_cycles1 both_sinks
      [(''example.com'', scenario_world1), (''example.com'', scenario_world2)] empty_store1))))
     = [(Telegram, [''api.example.com'', ''www.example.com'']),
        (Discord, [''api.example.com'', ''www.example.com'']),
        (Telegram, [''new.example.com'']),
        (Discord, [''new.example.com''])]"
  by code_simp+

text \<open>
  The scenario of the specification on an empty store, in each script on the table that
  the script works with: the first cycle commits and posts \<open>api\<close> and \<open>www\<close>, the
  second \<open>new\<close> only.
\<close>

theorem new_hostnames_of_two_cycles_witness:
  "cycle_succeeds scenario_world1 \<and> cycle_succeeds scenario_world2
   \<and> db empty_store = Some \<lparr>tbl_columns = schema2, tbl_rows = [], tbl_seq = 0\<rparr>
   \<and> has_columns \<lparr>tbl_columns = schema2, tbl_rows = [], tbl_seq = 0\<rparr> schema2
   \<and> (\<exists>st1 st2 evs1 evs2.
         monitor_domain2 both_sinks scenario_world1 ''example.com'' empty_store = (Inr (), st1)
       \<and> trace st1 = trace empty_store @ evs1
       \<and> monitor_domain2 both_sinks scenario_world2 ''example.com'' st1 = (Inr (), st2)
       \<and> trace st2 = trace st1 @ evs2
       \<and> committed_hosts evs2
           = fetched2 scenario_world2 ''example.com'' - fetched2 scenario_world1 ''example.com''
             - known_set ''example.com'' (db empty_store)
       \<and> posted_hosts Telegram evs2 \<inter> fetched2 scenario_world1 ''example.com'' = {})
   \<and> commits (trace (snd (run_cycles2 both_sinks
        [(''example.com'', scenario_world1), (''example.com'', scenario_world2)] empty_store)))
       = [(''example.com'', [''api.example.com'', ''www.example.com'']),
          (''example.com'', [''new.example.com''])]
   \<and> map (\<lambda>p. (fst p, alert_hosts (snd p))) (posts (trace (snd (run_cycles2 both_sinks
        [(''example.com'', scenario_world1), (''example.com'', scenario_world2)] empty_store))))
       = [(Telegram, [''api.example.com'', ''www.example.com'']),
          (Discord, [''api.example.com'', ''www.example.com'']),
          (Telegram, [''new.example.com'']),
          (Discord, [''new.example.com''])]
   \<and> db empty_store1 = Some \<lparr>tbl_columns = schema1, tbl_rows = [], tbl_seq = 0\<rparr>
   \<and> has_columns \<lparr>tbl_columns = schema1, tbl_rows = [], tbl_seq = 0\<rparr> schema1
   \<and> (\<exists>st1 st2 evs1 evs2.
         monitor_domain1 both_sinks scenario_world1 ''example.com'' empty_store1 = (Inr (), st1)
       \<and> trace st1 = trace empty_store1 @ evs1
       \<and> monitor_domain1 both_sinks scenario_world2 ''example.com'' st1 = (Inr (), st2)
       \<and> trace st2 = trace st1 @ evs2
       \<and> committed_hosts evs2
           = fetched1 scenario_world2 ''example.com'' - fetched1 scenario_world1 ''example.com''
             - known_set ''example.com'' (db empty_store1)
       \<and> posted_hosts Telegram evs2 \<inter> fetched1 scenario_world1 ''example.com'' = {})
   \<and> map (\<lambda>c. (fst c, sort (snd c))) (commits (trace (snd (run_cycles1 both_sinks
        [(''example.com'', scenario_world1), (''example.com'', scenario_world2)] empty_store1))))
       = [(''example.com'', [''api.example.com'', ''www.example.com'']),
          (''example.com'', [''new.example.com''])]
   \<and> map (\<lambda>p. (fst p, alert_hosts (snd p))) (posts (trace (snd (run_cycles1 both_sinks
        [(''example.com'', scenario_world1), (''example.com'', scenario_world2)] empty_store1))))
       = [(Telegram, [''api.example.com'', ''www.example.com'']),
          (Discord, [''api.example.com'', ''www.example.com'']),
          (Telegram, [''new.example.com'']),
          (Discord, [''new.example.com''])]"
proof -
  note two = new_hostnames_of_two_cycles [OF scenario_facts(1-3), of both_sinks "''example.com''",
      THEN conjunct1, rule_format, OF scenario_facts(4)]
  from two obtain st1 st2 evs1 evs2 where
    c: "monitor_domain2 both_sinks scenario_world1 ''example.com'' empty_store = (Inr (), st1)"
       "trace st1 = trace empty_store @ evs1"
       "monitor_domain2 both_sinks scenario_world2 ''example.com'' st1 = (Inr (), st2)"
       "trace st2 = trace st1 @ evs2"
       "committed_hosts evs2
           = fetched2 scenario_world2 ''example.com'' - fetched2 scenario_world1 ''example.com''
             - known_set ''example.com'' (db empty_store)"
       "posted_hosts Telegram evs2 \<inter> fetched2 scenario_world1 ''example.com'' = {}"
    by (elim exE conjE)
  have ex: "\<exists>st1 st2 evs1 evs2.
         monitor_domain2 both_sinks scenario_world1 ''example.com'' empty_store = (Inr (), st1)
       \<and> trace st1 = trace empty_store @ evs1
       \<and> monitor_domain2 both_sinks scenario_world2 ''example.com'' st1 = (Inr (), st2)
       \<and> trace st2 = trace st1 @ evs2
       \<and> committed_hosts evs2
           = fetched2 scenario_world2 ''example.com'' - fetched2 scenario_world1 ''example.com''
             - known_set ''example.com'' (db empty_store)
       \<and> posted_hosts Telegram evs2 \<inter> fetched2 scenario_world1 ''example.com'' = {}"
    using c by (intro exI [of _ st1] exI [of _ st2] exI [of _ evs1] exI [of _ evs2] conjI)
  note one = new_hostnames_of_two_cycles [OF scenario_facts(1,2) scenario_facts1(1),
      of both_sinks "''example.com''", THEN conjunct2, rule_format, OF scenario_facts1(2)]
  from one obtain sa sb evsa evsb where
    d: "monitor_domain1 both_sinks scenario_world1 ''example.com'' empty_store1 = (Inr (), sa)"
       "trace sa = trace empty_store1 @ evsa"
       "monitor_domain1 both_sinks scenario_world2 ''example.com'' sa = (Inr (), sb)"
       "trace sb = trace sa @ evsb"
       "committed_hosts evsb
           = fetched1 scenario_world2 ''example.com'' - fetched1 scenario_world1 ''example.com''
             - known_set ''example.com'' (db empty_store1)"
       "posted_hosts Telegram evsb \<inter> fetched1 scenario_world1 ''example.com'' = {}"
    by (elim exE conjE)
  have ex1: "\<exists>st1 st2 evs1 evs2.
         monitor_domain1 both_sinks scenario_world1 ''example.com'' empty_store1 = (Inr (), st1)
       \<and> trace st1 = trace empty_store1 @ evs1
       \<and> monitor_domain1 both_sinks scenario_world2 ''example.com'' st1 = (Inr (), st2)
       \<and> trace st2 = trace st1 @ evs2
       \<and> committed_hosts evs2
           = fetched1 scenario_world2 ''example.com'' - fetched1 scenario_world1 ''example.com''
             - known_set ''example.com'' (db empty_store1)
       \<and> posted_hosts Telegram evs2 \<inter> fetched1 scenario_world1 ''example.com'' = {}"
    using d by (intro exI [of _ sa] exI [of _ sb] exI [of _ evsa] exI [of _ evsb] conjI)
  show ?thesis
    by (intro conjI scenario_facts ex scenario_facts1 ex1)
qed

text \<open>
  The claim as stated fails when the store knows a hostname that the first fetch does
  not report: the store knows \<open>api\<close>, the first fetch is empty, the second reports
  \<open>api\<close>. Then \<open>S2\<close> contains \<open>S1\<close> and \<open>S2 - S1\<close> is \<open>api\<close>, but the second
  cycle commits and posts nothing.
\<close>

theorem second_cycle_skips_known_hostname_counterexample:
  "cycle_succeeds quiet_world \<and> cycle_succeeds api_world
   \<and> fst (get_subdomains_from_crtsh2 quiet_world ''example.com'' api_known_store) = Inr []
   \<and> fst (get_subdomains_from_crtsh2 api_world ''example.com''
             (snd (monitor_domain2 both_sinks quiet_world ''example.com'' api_known_store)))
       = Inr [(''api.example.com'', ''2024-02-01T00:00:00'')]
   \<and> monitor_domain2 both_sinks quiet_world ''example.com'' api_known_store
       = (Inr (), api_known_store)
   \<and> monitor_domain2 both_sinks api_world ''example.com'' api_known_store
       = (Inr (), api_known_store)
   \<and> commits (trace api_known_store) = [] \<and> posts (trace api_known_store) = []"
  by code_simp

section \<open>Migration of the store\<close>













text \<open>
  The property as the specification words it fails on a store that holds a hostname
  twice: the second \<open>INSERT\<close> of the migration violates \<open>UNIQUE(domain, subdomain)\<close>,
  \<open>init_database\<close> of subdomain_monitor.py raises, and the table it leaves is the
  new one without any row. It fails as well on a store without the column
  \<open>last_seen\<close>: the \<open>SELECT\<close> raises and the table stays as it was, unmigrated.
\<close>

theorem migration_loses_rows_counterexample:
  "''domain'' \<notin> set (tbl_columns duplicate_legacy_table)
   \<and> length (tbl_rows duplicate_legacy_table) = 2
   \<and> init_database1 ''2024-03-01 00:00:00'' [''example.com'', ''example.org'']
        (Some duplicate_legacy_table)
      = (Inl IntegrityError, Some \<lparr>tbl_columns = schema1, tbl_rows = [], tbl_seq = 0\<rparr>)
   \<and> ''domain'' \<notin> set (tbl_columns narrow_legacy_table)
   \<and> length (tbl_rows narrow_legacy_table) = 1
   \<and> init_database1 ''2024-03-01 00:00:00'' [''example.com'', ''example.org'']
        (Some narrow_legacy_table)
      = (Inl OperationalError, Some narrow_legacy_table)"
  by (intro conjI; code_simp)

end
